theory Spec2Isabelle
  imports Main
begin

section \<open>Python values and exceptions\<close>

text \<open>
  The translators of \<^verbatim>\<open>translator/__init__.py\<close> are dynamically typed: the argument
  \<^verbatim>\<open>strings\<close> of a query is a string or a list of strings, a stored value is a string, a
  tuple, a list or anything else, and \<^verbatim>\<open>SelfTranslator.all\<close> hands its argument back as
  it is. The model therefore works over one type of Python values. HOL's equality on
  \<open>pyval\<close> is Python's \<^verbatim>\<open>==\<close> on these values.
\<close>

datatype pyval =
    Str string
  | Tuple "pyval list"
  | PList "pyval list"
  | PInt int
  | NoneV

datatype error =
    IndexError
  | TypeError
  | AssertionError
  | ReError
  | EvalError

text \<open>
  \<open>ReError\<close> is \<^verbatim>\<open>re.error\<close>; \<open>EvalError\<close> stands for the exceptions with which \<^verbatim>\<open>eval\<close> ends
  when the expression itself fails (SyntaxError, NameError, KeyError and the like).
\<close>

text \<open>Sequencing of computations that may raise: the first exception wins.\<close>

definition bind :: "error + 'a \<Rightarrow> ('a \<Rightarrow> error + 'b) \<Rightarrow> error + 'b" where
  "bind m f = (case m of Inl e \<Rightarrow> Inl e | Inr x \<Rightarrow> f x)"

text \<open>A \<^verbatim>\<open>for\<close> loop whose body may raise, threading the loop's state.\<close>

fun for_loop :: "'a list \<Rightarrow> ('a \<Rightarrow> 's \<Rightarrow> error + 's) \<Rightarrow> 's \<Rightarrow> error + 's" where
  "for_loop [] body s = Inr s"
| "for_loop (x # xs) body s =
     (case body x s of Inl e \<Rightarrow> Inl e | Inr s' \<Rightarrow> for_loop xs body s')"

text \<open>
  A \<^verbatim>\<open>for\<close> loop whose body may \<^verbatim>\<open>return\<close>: the body yields \<open>Some v\<close> to return \<open>v\<close>
  from the enclosing function and \<open>None\<close> to go on with the next element.
\<close>

fun for_return :: "'a list \<Rightarrow> ('a \<Rightarrow> error + pyval option) \<Rightarrow> error + pyval option" where
  "for_return [] body = Inr None"
| "for_return (x # xs) body =
     (case body x of
        Inl e \<Rightarrow> Inl e
      | Inr (Some v) \<Rightarrow> Inr (Some v)
      | Inr None \<Rightarrow> for_return xs body)"

text \<open>\<^verbatim>\<open>for item in v\<close>: what iterating over a value yields; a string yields its characters.\<close>

fun py_iter :: "pyval \<Rightarrow> error + pyval list" where
  "py_iter (Str s) = Inr (map (\<lambda>c. Str [c]) s)"
| "py_iter (Tuple vs) = Inr vs"
| "py_iter (PList vs) = Inr vs"
| "py_iter (PInt i) = Inl TypeError"
| "py_iter NoneV = Inl TypeError"

text \<open>\<^verbatim>\<open>if v:\<close>, the truth value of a Python value.\<close>

fun truthy :: "pyval \<Rightarrow> bool" where
  "truthy (Str s) = (s \<noteq> [])"
| "truthy (Tuple vs) = (vs \<noteq> [])"
| "truthy (PList vs) = (vs \<noteq> [])"
| "truthy (PInt i) = (i \<noteq> 0)"
| "truthy NoneV = False"

text \<open>\<^verbatim>\<open>v[0]\<close>\<close>

fun index0 :: "pyval \<Rightarrow> error + pyval" where
  "index0 (Str []) = Inl IndexError"
| "index0 (Str (c # s)) = Inr (Str [c])"
| "index0 (Tuple []) = Inl IndexError"
| "index0 (Tuple (v # vs)) = Inr v"
| "index0 (PList []) = Inl IndexError"
| "index0 (PList (v # vs)) = Inr v"
| "index0 (PInt i) = Inl TypeError"
| "index0 NoneV = Inl TypeError"

text \<open>\<^verbatim>\<open>if isinstance(strings, str): strings = [strings]\<close>\<close>

fun listify :: "pyval \<Rightarrow> pyval" where
  "listify (Str s) = PList [Str s]"
| "listify v = v"

text \<open>\<^verbatim>\<open>if item not in results: results.append(item)\<close>\<close>

definition add_unique :: "pyval \<Rightarrow> pyval list \<Rightarrow> pyval list" where
  "add_unique item results = (if item \<in> set results then results else results @ [item])"

fun add_all_unique :: "pyval list \<Rightarrow> pyval list \<Rightarrow> pyval list" where
  "add_all_unique [] results = results"
| "add_all_unique (item # items) results = add_all_unique items (add_unique item results)"

section \<open>Strings\<close>

text \<open>
  \<^verbatim>\<open>s.replace(old, new)\<close>: every non-overlapping occurrence of \<open>old\<close>, from the left. For an
  empty \<open>old\<close> Python puts \<open>new\<close> before every character and at the end.
\<close>

fun replace_from :: "nat \<Rightarrow> string \<Rightarrow> string \<Rightarrow> string \<Rightarrow> string" where
  "replace_from skip old new [] = []"
| "replace_from (Suc skip) old new (c # s) = replace_from skip old new s"
| "replace_from 0 old new (c # s) =
     (if take (length old) (c # s) = old
      then new @ replace_from (length old - 1) old new s
      else c # replace_from 0 old new s)"

definition replace :: "string \<Rightarrow> string \<Rightarrow> string \<Rightarrow> string" where
  "replace old new s =
     (if old = [] then new @ concat (map (\<lambda>c. c # new) s)
      else replace_from 0 old new s)"

text \<open>\<^verbatim>\<open>s.split('#')\<close>: the parts between the separators, at least one part.\<close>

fun split_on :: "char \<Rightarrow> string \<Rightarrow> string list" where
  "split_on sep [] = [[]]"
| "split_on sep (c # s) =
     (if c = sep then [] # split_on sep s
      else (case split_on sep s of [] \<Rightarrow> [[c]] | p # ps \<Rightarrow> (c # p) # ps))"

text \<open>
  A Python string is a sequence of Unicode characters; a HOL \<open>string\<close> is a list of
  8-bit characters. The model stands for Python strings that are ASCII texts, every
  character below 128; a character from 128 on stands for no Python character.
\<close>

definition ascii_text :: "string \<Rightarrow> bool" where
  "ascii_text s = (\<forall>c \<in> set s. (of_char c :: nat) < 128)"

text \<open>
  \<^verbatim>\<open>s.upper()\<close> and \<^verbatim>\<open>s.lower()\<close> on ASCII text, where only the 26 letters change. What
  the two functions do outside ASCII text (\<open>\<not> ascii_text s\<close>) says nothing about Python, and
  every statement about the case of letters is made for ASCII text.
\<close>

definition upper_char :: "char \<Rightarrow> char" where
  "upper_char c =
     (case map_of (zip ''abcdefghijklmnopqrstuvwxyz'' ''ABCDEFGHIJKLMNOPQRSTUVWXYZ'') c of
        None \<Rightarrow> c
      | Some u \<Rightarrow> u)"

definition lower_char :: "char \<Rightarrow> char" where
  "lower_char c =
     (case map_of (zip ''ABCDEFGHIJKLMNOPQRSTUVWXYZ'' ''abcdefghijklmnopqrstuvwxyz'') c of
        None \<Rightarrow> c
      | Some l \<Rightarrow> l)"

definition upper :: "string \<Rightarrow> string" where
  "upper s = map upper_char s"

definition lower :: "string \<Rightarrow> string" where
  "lower s = map lower_char s"

section \<open>The expansion engine\<close>

text \<open>
  Python's \<^verbatim>\<open>re\<close> module and its \<^verbatim>\<open>eval\<close> are not code of this repository. A match
  object is modelled by what its \<^verbatim>\<open>expand\<close> method does on a template: an \<^verbatim>\<open>re.error\<close> or
  the expanded text. A compiled pattern is modelled by what its three matching methods
  \<^verbatim>\<open>match\<close>, \<^verbatim>\<open>search\<close> and \<^verbatim>\<open>fullmatch\<close> do on a string: no match, or a match object.
\<close>

type_synonym matchobj = "string \<Rightarrow> error + string"

record regex =
  re_match :: "string \<Rightarrow> matchobj option"
  re_search :: "string \<Rightarrow> matchobj option"
  re_fullmatch :: "string \<Rightarrow> matchobj option"

text \<open>A compiled pattern that matches no string, such as \<^verbatim>\<open>re.compile('(?!)')\<close>.\<close>

definition never_regex :: regex where
  "never_regex = \<lparr>re_match = Map.empty, re_search = Map.empty, re_fullmatch = Map.empty\<rparr>"

text \<open>
  \<^verbatim>\<open>eval(d)\<close> is called inside \<^verbatim>\<open>_evaluate_dict\<close> and evaluates its text with the local
  variables of that call in scope: \<^verbatim>\<open>string\<close>, \<^verbatim>\<open>dicts\<close>, \<^verbatim>\<open>d\<close> and, from the second turn
  of the loop on, \<^verbatim>\<open>value\<close>. The evaluator is a parameter \<open>ev\<close> of the engine: a
  function of these variables (the text to evaluate is \<open>local_d\<close>) that gives the value
  or the exception. The globals of the module and the built-in names, which the
  expression sees as well, are the same at every evaluation and belong to \<open>ev\<close>. The model
  stops there: an expression is taken to have no effect but its value or exception, so
  one that changes the list \<^verbatim>\<open>dicts\<close> under the loop, or the state of the process, is
  outside it.
\<close>

record frame =
  local_string :: string
  local_dicts :: "string list"
  local_d :: string
  local_value :: "pyval option"

type_synonym evaluator = "frame \<Rightarrow> error + pyval"

text \<open>
  \<^verbatim>\<open>_fix_case\<close>: the loop over \<^verbatim>\<open>string.split('#')\<close>, with its state
  \<^verbatim>\<open>newparts\<close>, \<^verbatim>\<open>change\<close>, \<^verbatim>\<open>literal_hash\<close>.
\<close>

fun fix_case_loop :: "string list \<Rightarrow> string list \<Rightarrow> string \<Rightarrow> bool \<Rightarrow> string list" where
  "fix_case_loop [] newparts change literal_hash = newparts"
| "fix_case_loop (part # parts) newparts change literal_hash =
     (if part \<in> set [''LOWER'', ''UPPER'', ''MIXED'']
      then fix_case_loop parts newparts part False
      else
        (let part' = (if change = ''UPPER'' then upper part
                      else if change = ''LOWER'' then lower part
                      else part);
             newparts' = (if literal_hash then newparts @ [''#''] else newparts)
         in fix_case_loop parts (newparts' @ [part']) change True))"

definition fix_case :: "string \<Rightarrow> string" where
  "fix_case string = concat (fix_case_loop (split_on CHR ''#'' string) [] ''MIXED'' False)"

text \<open>
  \<^verbatim>\<open>re.findall(r'{.*?}\[.*?\]', string)\<close>: the leftmost, non-overlapping matches. Both
  \<^verbatim>\<open>.*?\<close> are lazy, so at every position the rest of the pattern is tried first and one
  more character (any but a newline) is taken only when that fails.
\<close>

fun match_index :: "string \<Rightarrow> string option" where
  "match_index [] = None"
| "match_index (c # s) =
     (if c = CHR '']'' then Some [c]
      else if c = CHR 0x0A then None
      else map_option ((#) c) (match_index s))"

fun match_braces :: "string \<Rightarrow> string option" where
  "match_braces [] = None"
| "match_braces (c # s) =
     (case (if c = CHR ''}'' \<and> take 1 s = ''[''
            then map_option (\<lambda>m. c # CHR ''['' # m) (match_index (drop 1 s))
            else None) of
        Some m \<Rightarrow> Some m
      | None \<Rightarrow>
          (if c = CHR 0x0A then None else map_option ((#) c) (match_braces s)))"

fun findall_from :: "nat \<Rightarrow> string \<Rightarrow> string list" where
  "findall_from skip [] = []"
| "findall_from (Suc skip) (c # s) = findall_from skip s"
| "findall_from 0 (c # s) =
     (if c = CHR ''{''
      then (case match_braces s of
              Some m \<Rightarrow> (c # m) # findall_from (length m) s
            | None \<Rightarrow> findall_from 0 s)
      else findall_from 0 s)"

definition findall_dict :: "string \<Rightarrow> string list" where
  "findall_dict string = findall_from 0 string"

text \<open>
  \<^verbatim>\<open>_evaluate_dict\<close>: the matches are found once, in the text as it is passed in; the
  loop then hands each to \<^verbatim>\<open>eval\<close> and reassigns \<^verbatim>\<open>value\<close> and \<^verbatim>\<open>string\<close>, which the next
  evaluation sees. \<^verbatim>\<open>str.replace\<close> raises TypeError when the value is not a string.
\<close>

definition evaluate_step ::
  "evaluator \<Rightarrow> string list \<Rightarrow> string \<Rightarrow> string \<times> pyval option
     \<Rightarrow> error + string \<times> pyval option" where
  "evaluate_step ev dicts d state =
     (case state of (string, previous) \<Rightarrow>
        bind (ev \<lparr>local_string = string, local_dicts = dicts, local_d = d,
                   local_value = previous\<rparr>)
          (\<lambda>value.
             case value of
               Str v \<Rightarrow> Inr (replace d v string, Some value)
             | _ \<Rightarrow> Inl TypeError))"

definition evaluate_dict :: "evaluator \<Rightarrow> string \<Rightarrow> error + string" where
  "evaluate_dict ev string =
     (let dicts = findall_dict string in
      bind (for_loop dicts (evaluate_step ev dicts) (string, None))
        (\<lambda>(string, value). Inr string))"

text \<open>The three steps applied to a replacement string.\<close>

definition expand_string :: "evaluator \<Rightarrow> matchobj \<Rightarrow> string \<Rightarrow> error + string" where
  "expand_string ev matchobj replacement =
     bind (matchobj replacement) (\<lambda>result. evaluate_dict ev (fix_case result))"

text \<open>The body of the loop over a tuple's items; a string item is expanded once more.\<close>

definition expand_item :: "evaluator \<Rightarrow> matchobj \<Rightarrow> pyval \<Rightarrow> pyval list \<Rightarrow> error + pyval list" where
  "expand_item ev matchobj item items =
     (case item of
        Str i \<Rightarrow>
          bind (expand_string ev matchobj i) (\<lambda>result.
            bind (matchobj result) (\<lambda>result'. Inr (items @ [Str result'])))
      | _ \<Rightarrow> Inr (items @ [item]))"

definition expand_replacement ::
  "evaluator \<Rightarrow> matchobj \<Rightarrow> pyval \<Rightarrow> pyval list \<Rightarrow> error + pyval list" where
  "expand_replacement ev matchobj replacement results =
     (case replacement of
        Str r \<Rightarrow>
          bind (expand_string ev matchobj r) (\<lambda>result. Inr (results @ [Str result]))
      | Tuple its \<Rightarrow>
          bind (for_loop its (expand_item ev matchobj) [])
            (\<lambda>items. Inr (results @ [Tuple items]))
      | _ \<Rightarrow> Inr (results @ [replacement]))"

text \<open>
  \<^verbatim>\<open>TranslatorByRegex.expand\<close>. Of the compiled pattern it calls \<^verbatim>\<open>regex.match\<close>, which
  raises TypeError on a non-string.
\<close>

definition expand :: "evaluator \<Rightarrow> regex \<Rightarrow> pyval \<Rightarrow> pyval \<Rightarrow> error + pyval list" where
  "expand ev regex string replacements =
     (case string of
        Str s \<Rightarrow>
          (case re_match regex s of
             None \<Rightarrow> Inr []
           | Some matchobj \<Rightarrow>
               for_loop (case replacements of PList rs \<Rightarrow> rs | _ \<Rightarrow> [replacements])
                 (expand_replacement ev matchobj) [])
      | _ \<Rightarrow> Inl TypeError)"

section \<open>Translators\<close>

text \<open>
  The five subclasses of \<^verbatim>\<open>Translator\<close> with their attributes: \<^verbatim>\<open>sequence\<close>;
  \<^verbatim>\<open>dict\<close> (keys are strings) and \<^verbatim>\<open>path_translator\<close>; \<^verbatim>\<open>tuples\<close>.
\<close>

datatype translator =
    TranslatorBySequence "translator list"
  | TranslatorByDict "string \<rightharpoonup> pyval" "translator option"
  | TranslatorByRegex "(regex \<times> pyval) list"
  | NullTranslator
  | SelfTranslator

fun TAG :: "translator \<Rightarrow> string" where
  "TAG (TranslatorBySequence sequence) = ''SEQUENCE''"
| "TAG (TranslatorByDict dict path_translator) = ''DICT''"
| "TAG (TranslatorByRegex tuples) = ''REGEX''"
| "TAG NullTranslator = ''NULL''"
| "TAG SelfTranslator = ''SELF''"

subsection \<open>Construction\<close>

text \<open>
  What a caller may pass where a translator is expected: a translator or some other
  value. \<^verbatim>\<open>TranslatorBySequence.__init__\<close> asserts that every argument is a translator
  and stores the list.
\<close>

datatype pyobj = Trans translator | Val pyval

fun check_translators :: "pyobj list \<Rightarrow> error + translator list" where
  "check_translators [] = Inr []"
| "check_translators (Val v # args) = Inl AssertionError"
| "check_translators (Trans t # args) =
     bind (check_translators args) (\<lambda>ts. Inr (t # ts))"

definition TranslatorBySequence_init :: "pyobj list \<Rightarrow> error + translator" where
  "TranslatorBySequence_init args =
     bind (check_translators args) (\<lambda>sequence. Inr (TranslatorBySequence sequence))"

text \<open>
  \<^verbatim>\<open>TranslatorByRegex.__init__\<close> takes rules of three shapes: a pattern string or a
  compiled pattern with a replacement, or a pattern string with flags and a replacement.
  \<^verbatim>\<open>re.compile\<close> is a parameter; it may raise \<^verbatim>\<open>re.error\<close>.
\<close>

datatype pattern = PatternString string | Compiled regex

datatype rule = Rule2 pattern pyval | Rule3 string int pyval

type_synonym compiler = "string \<Rightarrow> int \<Rightarrow> error + regex"

definition compile_rule :: "compiler \<Rightarrow> rule \<Rightarrow> error + regex \<times> pyval" where
  "compile_rule re_compile items =
     (case items of
        Rule2 (PatternString s) v \<Rightarrow>
          bind (re_compile (''^'' @ s @ ''$'') 0) (\<lambda>regex. Inr (regex, v))
      | Rule2 (Compiled regex) v \<Rightarrow> Inr (regex, v)
      | Rule3 s flags v \<Rightarrow>
          bind (re_compile (''^'' @ s @ ''$'') flags) (\<lambda>regex. Inr (regex, v)))"

definition TranslatorByRegex_init :: "compiler \<Rightarrow> rule list \<Rightarrow> error + translator" where
  "TranslatorByRegex_init re_compile tuples =
     bind (for_loop tuples
             (\<lambda>items compiled_tuples.
                bind (compile_rule re_compile items) (\<lambda>c. Inr (compiled_tuples @ [c])))
             [])
       (\<lambda>compiled_tuples. Inr (TranslatorByRegex compiled_tuples))"

subsection \<open>Queries\<close>

text \<open>\<^verbatim>\<open>TranslatorByDict.expand\<close>: the two characters \<^verbatim>\<open>\1\<close> are replaced by the key.\<close>

definition backslash_one :: string where
  "backslash_one = [CHR 0x5C, CHR ''1'']"

definition Dict_expand_item :: "string \<Rightarrow> pyval \<Rightarrow> pyval" where
  "Dict_expand_item key item =
     (case item of Str i \<Rightarrow> Str (replace backslash_one key i) | _ \<Rightarrow> item)"

definition Dict_expand_result :: "string \<Rightarrow> pyval \<Rightarrow> pyval" where
  "Dict_expand_result key result =
     (case result of
        Str r \<Rightarrow> Str (replace backslash_one key r)
      | Tuple its \<Rightarrow> Tuple (map (Dict_expand_item key) its)
      | _ \<Rightarrow> result)"

definition Dict_expand :: "pyval \<Rightarrow> string \<Rightarrow> pyval list" where
  "Dict_expand results key =
     map (Dict_expand_result key) (case results of PList rs \<Rightarrow> rs | _ \<Rightarrow> [results])"

text \<open>
  \<^verbatim>\<open>key in self.dict\<close> followed by \<^verbatim>\<open>self.dict[key]\<close>: hashing a list, or a tuple that
  holds one, raises TypeError; a key that is not a string is in no dictionary here.
\<close>

fun hashable :: "pyval \<Rightarrow> bool" where
  "hashable (Str s) = True"
| "hashable (Tuple vs) = (\<forall>v \<in> set vs. hashable v)"
| "hashable (PList vs) = False"
| "hashable (PInt i) = True"
| "hashable NoneV = True"

definition dict_get :: "(string \<rightharpoonup> pyval) \<Rightarrow> pyval \<Rightarrow> error + (string \<times> pyval) option" where
  "dict_get dict key =
     (if \<not> hashable key then Inl TypeError
      else (case key of
              Str k \<Rightarrow> (case dict k of None \<Rightarrow> Inr None | Some v \<Rightarrow> Inr (Some (k, v)))
            | _ \<Rightarrow> Inr None))"

lemma for_loop_cong [fundef_cong]:
  "xs = ys \<Longrightarrow> s = s' \<Longrightarrow> (\<And>x st. x \<in> set ys \<Longrightarrow> f x st = g x st) \<Longrightarrow>
   for_loop xs f s = for_loop ys g s'"
proof (induction ys arbitrary: xs s s')
  case Nil
  then show ?case by simp
next
  case (Cons y ys)
  then show ?case by (auto split: sum.splits)
qed

lemma for_return_cong [fundef_cong]:
  "xs = ys \<Longrightarrow> (\<And>x. x \<in> set ys \<Longrightarrow> f x = g x) \<Longrightarrow> for_return xs f = for_return ys g"
proof (induction ys arbitrary: xs)
  case Nil
  then show ?case by simp
next
  case (Cons y ys)
  then show ?case by (auto split: sum.splits option.splits)
qed

lemma bind_cong [fundef_cong]:
  "m = m' \<Longrightarrow> (\<And>x. m' = Inr x \<Longrightarrow> f x = g x) \<Longrightarrow> bind m f = bind m' g"
  by (auto simp: bind_def split: sum.splits)

text \<open>
  \<^verbatim>\<open>all\<close>, one equation per subclass. A nested call \<^verbatim>\<open>translator.all(string)\<close> leaves
  \<^verbatim>\<open>strings_first\<close> at its default, False.
\<close>

fun all :: "evaluator \<Rightarrow> translator \<Rightarrow> pyval \<Rightarrow> bool \<Rightarrow> error + pyval" where
  "all ev (TranslatorBySequence sequence) strings strings_first =
     (let strings = listify strings in
      if strings_first then
        bind (py_iter strings) (\<lambda>strs.
          bind (for_loop strs
                  (\<lambda>string results.
                     for_loop sequence
                       (\<lambda>translator results.
                          bind (all ev translator string False) (\<lambda>partial_results.
                            if truthy partial_results
                            then bind (py_iter partial_results)
                                   (\<lambda>items. Inr (add_all_unique items results))
                            else Inr results))
                       results)
                  [])
            (\<lambda>results. Inr (PList results)))
      else
        bind (for_loop sequence
                (\<lambda>translator results.
                   bind (all ev translator strings False) (\<lambda>partial_results.
                     if truthy partial_results
                     then bind (py_iter partial_results)
                            (\<lambda>items. Inr (add_all_unique items results))
                     else Inr results))
                [])
          (\<lambda>results. Inr (PList results)))"
| "all ev (TranslatorByDict dict path_translator) strings strings_first =
     (let strings = listify strings in
      bind (case path_translator of
              None \<Rightarrow> Inr strings
            | Some pt \<Rightarrow> all ev pt strings False) (\<lambda>keys.
        bind (py_iter keys) (\<lambda>ks.
          bind (for_loop ks
                  (\<lambda>key results.
                     bind (dict_get dict key) (\<lambda>found.
                       case found of
                         None \<Rightarrow> Inr results
                       | Some (k, result) \<Rightarrow>
                           Inr (add_all_unique (Dict_expand result k) results)))
                  [])
            (\<lambda>results. Inr (PList results)))))"
| "all ev (TranslatorByRegex tuples) strings strings_first =
     (let strings = listify strings in
      if strings_first then
        bind (py_iter strings) (\<lambda>strs.
          bind (for_loop strs
                  (\<lambda>string results.
                     for_loop tuples
                       (\<lambda>(regex, replacement) results.
                          bind (expand ev regex string replacement) (\<lambda>expanded.
                            Inr (add_all_unique expanded results)))
                       results)
                  [])
            (\<lambda>results. Inr (PList results)))
      else
        bind (for_loop tuples
                (\<lambda>(regex, replacement) results.
                   bind (py_iter strings) (\<lambda>strs.
                     for_loop strs
                       (\<lambda>string results.
                          bind (expand ev regex string replacement) (\<lambda>expanded.
                            Inr (add_all_unique expanded results)))
                       results))
                [])
          (\<lambda>results. Inr (PList results)))"
| "all ev NullTranslator strings strings_first = Inr (PList [])"
| "all ev SelfTranslator strings strings_first = Inr strings"

text \<open>
  \<^verbatim>\<open>first\<close>, one equation per subclass; Python's None is \<open>NoneV\<close>. A loop body yields
  \<open>Some v\<close> where the source returns \<open>v\<close>.
\<close>

definition or_None :: "pyval option \<Rightarrow> error + pyval" where
  "or_None r = (case r of Some v \<Rightarrow> Inr v | None \<Rightarrow> Inr NoneV)"

definition return_unless_None :: "pyval \<Rightarrow> error + pyval option" where
  "return_unless_None result = (if result \<noteq> NoneV then Inr (Some result) else Inr None)"

fun first :: "evaluator \<Rightarrow> translator \<Rightarrow> pyval \<Rightarrow> bool \<Rightarrow> error + pyval" where
  "first ev (TranslatorBySequence sequence) strings strings_first =
     (let strings = listify strings in
      if strings_first then
        bind (py_iter strings) (\<lambda>strs.
          bind (for_return strs
                  (\<lambda>string.
                     for_return sequence
                       (\<lambda>translator.
                          bind (first ev translator string False) return_unless_None)))
            or_None)
      else
        bind (for_return sequence
                (\<lambda>translator.
                   bind (first ev translator strings False) return_unless_None))
          or_None)"
| "first ev (TranslatorByDict dict path_translator) strings strings_first =
     (let strings = listify strings in
      bind (case path_translator of
              None \<Rightarrow> Inr strings
            | Some pt \<Rightarrow> all ev pt strings False) (\<lambda>keys.
        bind (py_iter keys) (\<lambda>ks.
          bind (for_return ks
                  (\<lambda>key.
                     bind (dict_get dict key) (\<lambda>found.
                       case found of
                         None \<Rightarrow> Inr None
                       | Some (k, result) \<Rightarrow>
                           bind (index0 (PList (Dict_expand result k))) (\<lambda>v. Inr (Some v)))))
            or_None)))"
| "first ev (TranslatorByRegex tuples) strings strings_first =
     (let strings = listify strings in
      if strings_first then
        bind (py_iter strings) (\<lambda>strs.
          bind (for_return strs
                  (\<lambda>string.
                     for_return tuples
                       (\<lambda>(regex, replacement).
                          bind (expand ev regex string replacement) (\<lambda>expanded.
                            if expanded \<noteq> [] then Inr (Some (hd expanded)) else Inr None))))
            or_None)
      else
        bind (for_return tuples
                (\<lambda>(regex, replacement).
                   bind (py_iter strings) (\<lambda>strs.
                     for_return strs
                       (\<lambda>string.
                          bind (expand ev regex string replacement) (\<lambda>expanded.
                            if expanded \<noteq> [] then Inr (Some (hd expanded)) else Inr None)))))
          or_None)"
| "first ev NullTranslator strings strings_first = Inr NoneV"
| "first ev SelfTranslator strings strings_first = index0 strings"

subsection \<open>Composition\<close>

text \<open>
  \<^verbatim>\<open>prepend\<close> and \<^verbatim>\<open>append\<close>. The tests \<^verbatim>\<open>translator.TAG == 'NULL'\<close> and
  \<^verbatim>\<open>translator.TAG == 'SEQUENCE'\<close> (or \<^verbatim>\<open>== self.TAG\<close>) select a subclass and are
  written as cases on the argument; \<^verbatim>\<open>self.sequence[0]\<close> and \<^verbatim>\<open>self.sequence[-1]\<close>
  raise IndexError on an empty list. The constructors are called on translators and
  compiled rules only, so their checks pass. \<^verbatim>\<open>append\<close> is named \<open>append_translator\<close>
  here, apart from the list operation of the same name.
\<close>

fun is_sequence :: "translator \<Rightarrow> bool" where
  "is_sequence (TranslatorBySequence sequence) = True"
| "is_sequence t = False"

definition merge_rank :: "translator \<Rightarrow> translator \<Rightarrow> nat" where
  "merge_rank self translator =
     2 * (if is_sequence self then 1 else 0) + 2 * (if is_sequence translator then 1 else 0)
     + (if \<not> is_sequence self \<and> is_sequence translator then 1 else 0)"

lemma TAG_sequence: "TAG t = ''SEQUENCE'' \<longleftrightarrow> is_sequence t"
  by (cases t) simp_all

function prepend :: "translator \<Rightarrow> translator \<Rightarrow> error + translator"
  and append_translator :: "translator \<Rightarrow> translator \<Rightarrow> error + translator" where
  "prepend (TranslatorBySequence sequence) translator =
     (case translator of
        NullTranslator \<Rightarrow> Inr translator
      | TranslatorBySequence sequence' \<Rightarrow> Inr (TranslatorBySequence (sequence' @ sequence))
      | _ \<Rightarrow>
          (case sequence of
             [] \<Rightarrow> Inl IndexError
           | t0 # rest \<Rightarrow>
               if TAG translator = TAG t0 then
                 bind (prepend t0 translator) (\<lambda>new_translator.
                   if TAG new_translator = TAG translator
                   then Inr (TranslatorBySequence ([new_translator] @ rest))
                   else Inr (TranslatorBySequence [translator, TranslatorBySequence sequence]))
               else Inr (TranslatorBySequence [translator, TranslatorBySequence sequence])))"
| "append_translator (TranslatorBySequence sequence) translator =
     (case translator of
        NullTranslator \<Rightarrow> Inr translator
      | TranslatorBySequence sequence' \<Rightarrow> Inr (TranslatorBySequence (sequence @ sequence'))
      | _ \<Rightarrow>
          (if sequence = [] then Inl IndexError
           else if TAG translator = TAG (last sequence) then
             bind (append_translator (last sequence) translator) (\<lambda>new_translator.
               if TAG new_translator = TAG translator
               then Inr (TranslatorBySequence (butlast sequence @ [new_translator]))
               else Inr (TranslatorBySequence [TranslatorBySequence sequence, translator]))
           else Inr (TranslatorBySequence [TranslatorBySequence sequence, translator])))"
| "prepend (TranslatorByDict dict path_translator) translator =
     (case translator of
        NullTranslator \<Rightarrow> Inr translator
      | TranslatorBySequence sequence' \<Rightarrow>
          append_translator translator (TranslatorByDict dict path_translator)
      | _ \<Rightarrow> Inr (TranslatorBySequence [translator, TranslatorByDict dict path_translator]))"
| "append_translator (TranslatorByDict dict path_translator) translator =
     (case translator of
        NullTranslator \<Rightarrow> Inr translator
      | TranslatorBySequence sequence' \<Rightarrow>
          prepend translator (TranslatorByDict dict path_translator)
      | _ \<Rightarrow> Inr (TranslatorBySequence [TranslatorByDict dict path_translator, translator]))"
| "prepend (TranslatorByRegex tuples) translator =
     (case translator of
        NullTranslator \<Rightarrow> Inr translator
      | TranslatorByRegex tuples' \<Rightarrow> Inr (TranslatorByRegex (tuples' @ tuples))
      | TranslatorBySequence sequence' \<Rightarrow> append_translator translator (TranslatorByRegex tuples)
      | _ \<Rightarrow> Inr (TranslatorBySequence [translator, TranslatorByRegex tuples]))"
| "append_translator (TranslatorByRegex tuples) translator =
     (case translator of
        NullTranslator \<Rightarrow> Inr translator
      | TranslatorByRegex tuples' \<Rightarrow> Inr (TranslatorByRegex (tuples @ tuples'))
      | TranslatorBySequence sequence' \<Rightarrow> prepend translator (TranslatorByRegex tuples)
      | _ \<Rightarrow> Inr (TranslatorBySequence [TranslatorByRegex tuples, translator]))"
| "prepend NullTranslator translator = Inr translator"
| "append_translator NullTranslator translator = Inr translator"
| "prepend SelfTranslator translator =
     (case translator of
        SelfTranslator \<Rightarrow> Inr SelfTranslator
      | NullTranslator \<Rightarrow> Inr SelfTranslator
      | TranslatorBySequence sequence' \<Rightarrow> append_translator translator SelfTranslator
      | _ \<Rightarrow> Inr (TranslatorBySequence [translator, SelfTranslator]))"
| "append_translator SelfTranslator translator =
     (case translator of
        SelfTranslator \<Rightarrow> Inr SelfTranslator
      | NullTranslator \<Rightarrow> Inr SelfTranslator
      | TranslatorBySequence sequence' \<Rightarrow> prepend translator SelfTranslator
      | _ \<Rightarrow> Inr (TranslatorBySequence [SelfTranslator, translator]))"
  by pat_completeness auto

termination
proof (relation "measure (\<lambda>x. case x of Inl (s, t) \<Rightarrow> merge_rank s t
                                          | Inr (s, t) \<Rightarrow> merge_rank s t)")
qed (auto simp: merge_rank_def TAG_sequence [symmetric])

section \<open>The composition algebra\<close>

text \<open>
  C1 (as amended). The Empty translator does not absorb on the left: composing Empty with
  any translator \<open>T\<close>, by \<^verbatim>\<open>append\<close> or by \<^verbatim>\<open>prepend\<close>, returns \<open>T\<close> itself. A Sequence,
  Exact-match or Pattern translator composed with Empty as the argument returns Empty;
  Identity composed with Empty as the argument returns Identity.
\<close>

theorem empty_composition:
  "append_translator NullTranslator T = Inr T
   \<and> prepend NullTranslator T = Inr T
   \<and> append_translator (TranslatorBySequence sequence) NullTranslator = Inr NullTranslator
   \<and> prepend (TranslatorBySequence sequence) NullTranslator = Inr NullTranslator
   \<and> append_translator (TranslatorByDict dict path_translator) NullTranslator = Inr NullTranslator
   \<and> prepend (TranslatorByDict dict path_translator) NullTranslator = Inr NullTranslator
   \<and> append_translator (TranslatorByRegex tuples) NullTranslator = Inr NullTranslator
   \<and> prepend (TranslatorByRegex tuples) NullTranslator = Inr NullTranslator
   \<and> append_translator SelfTranslator NullTranslator = Inr SelfTranslator
   \<and> prepend SelfTranslator NullTranslator = Inr SelfTranslator"
  by simp

theorem empty_composition_witness:
  "append_translator NullTranslator (TranslatorByDict [''a'' \<mapsto> Str ''1''] None)
     = Inr (TranslatorByDict [''a'' \<mapsto> Str ''1''] None)
   \<and> prepend NullTranslator (TranslatorByDict [''a'' \<mapsto> Str ''1''] None)
     = Inr (TranslatorByDict [''a'' \<mapsto> Str ''1''] None)
   \<and> append_translator (TranslatorBySequence [SelfTranslator]) NullTranslator = Inr NullTranslator
   \<and> prepend (TranslatorBySequence [SelfTranslator]) NullTranslator = Inr NullTranslator
   \<and> append_translator (TranslatorByDict [''a'' \<mapsto> Str ''1''] None) NullTranslator
     = Inr NullTranslator
   \<and> prepend (TranslatorByDict [''a'' \<mapsto> Str ''1''] None) NullTranslator = Inr NullTranslator
   \<and> append_translator (TranslatorByRegex []) NullTranslator = Inr NullTranslator
   \<and> prepend (TranslatorByRegex []) NullTranslator = Inr NullTranslator
   \<and> append_translator SelfTranslator NullTranslator = Inr SelfTranslator
   \<and> prepend SelfTranslator NullTranslator = Inr SelfTranslator"
  by (rule empty_composition)

text \<open>
  The absorption law fails: Empty composed with Identity is Identity, in both directions
  and on both sides.
\<close>

theorem absorption_counterexample:
  "append_translator NullTranslator SelfTranslator = Inr SelfTranslator
   \<and> prepend NullTranslator SelfTranslator = Inr SelfTranslator
   \<and> append_translator SelfTranslator NullTranslator = Inr SelfTranslator
   \<and> prepend SelfTranslator NullTranslator = Inr SelfTranslator
   \<and> SelfTranslator \<noteq> NullTranslator"
  by simp

text \<open>
  C2 (as amended). Two Pattern translators merge into one Pattern translator whose rule
  list is the concatenation, the receiver's rules first for \<^verbatim>\<open>append\<close> and the argument's
  first for \<^verbatim>\<open>prepend\<close>; two Sequence translators merge likewise into one Sequence. Two
  Exact-match translators are not merged: the result is a two-element Sequence holding
  both, in the requested order.
\<close>

theorem same_kind_composition:
  "append_translator (TranslatorByRegex tuples) (TranslatorByRegex tuples')
     = Inr (TranslatorByRegex (tuples @ tuples'))
   \<and> prepend (TranslatorByRegex tuples) (TranslatorByRegex tuples')
     = Inr (TranslatorByRegex (tuples' @ tuples))
   \<and> append_translator (TranslatorBySequence sequence) (TranslatorBySequence sequence')
     = Inr (TranslatorBySequence (sequence @ sequence'))
   \<and> prepend (TranslatorBySequence sequence) (TranslatorBySequence sequence')
     = Inr (TranslatorBySequence (sequence' @ sequence))
   \<and> append_translator (TranslatorByDict dict pt) (TranslatorByDict dict' pt')
     = Inr (TranslatorBySequence [TranslatorByDict dict pt, TranslatorByDict dict' pt'])
   \<and> prepend (TranslatorByDict dict pt) (TranslatorByDict dict' pt')
     = Inr (TranslatorBySequence [TranslatorByDict dict' pt', TranslatorByDict dict pt])"
  by simp

theorem same_kind_composition_witness:
  "append_translator (TranslatorByRegex [(never_regex, Str ''x'')])
       (TranslatorByRegex [(never_regex, Str ''y'')])
     = Inr (TranslatorByRegex ([(never_regex, Str ''x'')] @ [(never_regex, Str ''y'')]))
   \<and> prepend (TranslatorByRegex [(never_regex, Str ''x'')])
       (TranslatorByRegex [(never_regex, Str ''y'')])
     = Inr (TranslatorByRegex ([(never_regex, Str ''y'')] @ [(never_regex, Str ''x'')]))
   \<and> append_translator (TranslatorBySequence [SelfTranslator])
       (TranslatorBySequence [NullTranslator])
     = Inr (TranslatorBySequence ([SelfTranslator] @ [NullTranslator]))
   \<and> prepend (TranslatorBySequence [SelfTranslator]) (TranslatorBySequence [NullTranslator])
     = Inr (TranslatorBySequence ([NullTranslator] @ [SelfTranslator]))
   \<and> append_translator (TranslatorByDict [''a'' \<mapsto> Str ''1''] None)
       (TranslatorByDict [''b'' \<mapsto> Str ''2''] None)
     = Inr (TranslatorBySequence [TranslatorByDict [''a'' \<mapsto> Str ''1''] None,
                                  TranslatorByDict [''b'' \<mapsto> Str ''2''] None])
   \<and> prepend (TranslatorByDict [''a'' \<mapsto> Str ''1''] None)
       (TranslatorByDict [''b'' \<mapsto> Str ''2''] None)
     = Inr (TranslatorBySequence [TranslatorByDict [''b'' \<mapsto> Str ''2''] None,
                                  TranslatorByDict [''a'' \<mapsto> Str ''1''] None])"
  by (rule same_kind_composition)

text \<open>
  Appending one Exact-match translator to another yields a nested two-element Sequence,
  not an Exact-match translator.
\<close>

theorem exact_merge_counterexample:
  "append_translator (TranslatorByDict [''a'' \<mapsto> Str ''1''] None)
       (TranslatorByDict [''b'' \<mapsto> Str ''2''] None)
     = Inr (TranslatorBySequence [TranslatorByDict [''a'' \<mapsto> Str ''1''] None,
                                  TranslatorByDict [''b'' \<mapsto> Str ''2''] None])
   \<and> TAG (TranslatorBySequence [TranslatorByDict [''a'' \<mapsto> Str ''1''] None,
                                 TranslatorByDict [''b'' \<mapsto> Str ''2''] None])
     \<noteq> TAG (TranslatorByDict [''a'' \<mapsto> Str ''1''] None)"
  by simp

section \<open>Construction of a Sequence translator\<close>

lemma check_translators_Trans: "check_translators (map Trans ts) = Inr ts"
  by (induction ts) (simp_all add: bind_def)

lemma check_translators_Val:
  "check_translators (map Trans ts @ Val v # args) = Inl AssertionError"
  by (induction ts) (simp_all add: bind_def)

lemma for_loop_Nil_body [simp]: "for_loop [] body = Inr"
  by (rule ext) simp

lemma for_loop_skip [simp]: "for_loop xs (\<lambda>x. Inr) s = Inr s"
  by (induction xs arbitrary: s) simp_all

lemma for_return_skip [simp]: "for_return xs (\<lambda>x. Inr None) = Inr None"
  by (induction xs) simp_all

text \<open>
  An empty child list is accepted at construction.
\<close>

theorem empty_sequence_counterexample:
  "TranslatorBySequence_init [] = Inr (TranslatorBySequence [])"
  by (simp add: TranslatorBySequence_init_def bind_def)

text \<open>
  C5 (as amended). Constructing a Sequence translator from any list of translators, the
  empty list included, succeeds and stores the list; construction fails at once only
  when an element is not a translator. A Sequence without children answers \<^verbatim>\<open>all\<close> with
  the empty list and \<^verbatim>\<open>first\<close> with None; the missing child shows only at merge time,
  when an Exact-match, Pattern or Identity translator is prepended or appended
  (IndexError).
\<close>

theorem sequence_construction:
  "TranslatorBySequence_init (map Trans ts) = Inr (TranslatorBySequence ts)
   \<and> TranslatorBySequence_init (map Trans ts @ Val v # args) = Inl AssertionError
   \<and> all ev (TranslatorBySequence []) (PList strs) strings_first = Inr (PList [])
   \<and> first ev (TranslatorBySequence []) (PList strs) strings_first = Inr NoneV
   \<and> prepend (TranslatorBySequence []) (TranslatorByDict dict pt) = Inl IndexError
   \<and> append_translator (TranslatorBySequence []) (TranslatorByDict dict pt) = Inl IndexError
   \<and> prepend (TranslatorBySequence []) (TranslatorByRegex tuples) = Inl IndexError
   \<and> append_translator (TranslatorBySequence []) (TranslatorByRegex tuples) = Inl IndexError
   \<and> prepend (TranslatorBySequence []) SelfTranslator = Inl IndexError
   \<and> append_translator (TranslatorBySequence []) SelfTranslator = Inl IndexError"
  by (simp add: TranslatorBySequence_init_def check_translators_Trans check_translators_Val
      bind_def or_None_def Let_def)

theorem sequence_construction_witness:
  "TranslatorBySequence_init (map Trans [SelfTranslator, NullTranslator])
     = Inr (TranslatorBySequence [SelfTranslator, NullTranslator])
   \<and> TranslatorBySequence_init
         (map Trans [SelfTranslator, NullTranslator] @ Val (Str ''x'') # [Trans SelfTranslator])
     = Inl AssertionError
   \<and> all (\<lambda>frame. Inl EvalError) (TranslatorBySequence []) (PList [Str ''a'']) True
     = Inr (PList [])
   \<and> first (\<lambda>frame. Inl EvalError) (TranslatorBySequence []) (PList [Str ''a'']) True = Inr NoneV
   \<and> prepend (TranslatorBySequence []) (TranslatorByDict [''a'' \<mapsto> Str ''1''] None)
     = Inl IndexError
   \<and> append_translator (TranslatorBySequence []) (TranslatorByDict [''a'' \<mapsto> Str ''1''] None)
     = Inl IndexError
   \<and> prepend (TranslatorBySequence []) (TranslatorByRegex []) = Inl IndexError
   \<and> append_translator (TranslatorBySequence []) (TranslatorByRegex []) = Inl IndexError
   \<and> prepend (TranslatorBySequence []) SelfTranslator = Inl IndexError
   \<and> append_translator (TranslatorBySequence []) SelfTranslator = Inl IndexError"
  by (rule sequence_construction)

section \<open>Queries that find nothing\<close>

text \<open>
  C4. \<^verbatim>\<open>first\<close> does not always answer "no match" with None: the Identity translator
  on an empty list of strings, and an Exact-match translator whose stored value is the
  empty list, raise IndexError, while \<^verbatim>\<open>all\<close> returns normally on both.
\<close>

theorem first_raises_IndexError:
  "first ev SelfTranslator (PList []) strings_first = Inl IndexError
   \<and> first ev (TranslatorByDict [''a'' \<mapsto> PList []] None) (Str ''a'') strings_first
     = Inl IndexError
   \<and> all ev SelfTranslator (PList []) strings_first = Inr (PList [])
   \<and> all ev (TranslatorByDict [''a'' \<mapsto> PList []] None) (Str ''a'') strings_first
     = Inr (PList [])"
  by (simp add: bind_def dict_get_def Dict_expand_def)

theorem first_raises_IndexError_witness:
  "first (\<lambda>frame. Inl EvalError) SelfTranslator (PList []) False = Inl IndexError
   \<and> first (\<lambda>frame. Inl EvalError) (TranslatorByDict [''a'' \<mapsto> PList []] None) (Str ''a'') False
     = Inl IndexError
   \<and> all (\<lambda>frame. Inl EvalError) SelfTranslator (PList []) False = Inr (PList [])
   \<and> all (\<lambda>frame. Inl EvalError) (TranslatorByDict [''a'' \<mapsto> PList []] None) (Str ''a'') False
     = Inr (PList [])"
  by (rule first_raises_IndexError)

section \<open>Traversal order of a Sequence\<close>

definition D1 :: translator where
  "D1 = TranslatorByDict [''a'' \<mapsto> Str ''1'', ''b'' \<mapsto> Str ''2''] None"

definition D2 :: translator where
  "D2 = TranslatorByDict [''a'' \<mapsto> Str ''3'', ''b'' \<mapsto> Str ''4''] None"

text \<open>
  C9. For the Sequence of \<open>D1 = {"a":"1","b":"2"}\<close> and \<open>D2 = {"a":"3","b":"4"}\<close>,
  \<^verbatim>\<open>all(["a","b"])\<close> is \<^verbatim>\<open>["1","3","2","4"]\<close> with \<^verbatim>\<open>strings_first\<close> and
  \<^verbatim>\<open>["1","2","3","4"]\<close> without; for the one-key mappings \<open>{"a":"1"}\<close> and \<open>{"a":"3"}\<close>,
  \<^verbatim>\<open>all(["a"])\<close> is \<^verbatim>\<open>["1","3"]\<close> under both values of the flag.
\<close>

theorem traversal_order:
  "all ev (TranslatorBySequence [D1, D2]) (PList [Str ''a'', Str ''b'']) True
     = Inr (PList [Str ''1'', Str ''3'', Str ''2'', Str ''4''])
   \<and> all ev (TranslatorBySequence [D1, D2]) (PList [Str ''a'', Str ''b'']) False
     = Inr (PList [Str ''1'', Str ''2'', Str ''3'', Str ''4''])
   \<and> all ev (TranslatorBySequence [TranslatorByDict [''a'' \<mapsto> Str ''1''] None,
                                    TranslatorByDict [''a'' \<mapsto> Str ''3''] None])
         (PList [Str ''a'']) strings_first
     = Inr (PList [Str ''1'', Str ''3''])"
  by (cases strings_first)
    (simp_all add: D1_def D2_def bind_def dict_get_def Dict_expand_def Dict_expand_result_def
      add_unique_def replace_def backslash_one_def)

theorem traversal_order_witness:
  "all (\<lambda>frame. Inl EvalError) (TranslatorBySequence [D1, D2]) (PList [Str ''a'', Str ''b'']) True
     = Inr (PList [Str ''1'', Str ''3'', Str ''2'', Str ''4''])
   \<and> all (\<lambda>frame. Inl EvalError) (TranslatorBySequence [D1, D2])
         (PList [Str ''a'', Str ''b'']) False
     = Inr (PList [Str ''1'', Str ''2'', Str ''3'', Str ''4''])
   \<and> all (\<lambda>frame. Inl EvalError)
         (TranslatorBySequence [TranslatorByDict [''a'' \<mapsto> Str ''1''] None,
                                TranslatorByDict [''a'' \<mapsto> Str ''3''] None])
         (PList [Str ''a'']) True
     = Inr (PList [Str ''1'', Str ''3''])"
  by (rule traversal_order)

section \<open>De-duplication\<close>

lemma distinct_add_unique: "distinct results \<Longrightarrow> distinct (add_unique item results)"
  by (simp add: add_unique_def)

lemma distinct_add_all_unique:
  "distinct results \<Longrightarrow> distinct (add_all_unique items results)"
  by (induction items arbitrary: results) (simp_all add: distinct_add_unique)

text \<open>A property that every normal step of a loop body keeps holds when the loop ends.\<close>

lemma for_loop_invariant:
  assumes "for_loop xs body s = Inr s'"
    and "P s"
    and "\<And>x t t'. P t \<Longrightarrow> body x t = Inr t' \<Longrightarrow> P t'"
  shows "P s'"
  using assms(1,2)
proof (induction xs arbitrary: s)
  case Nil
  then show ?case by simp
next
  case (Cons x xs)
  from Cons.prems(1) obtain t where step: "body x s = Inr t" and rest: "for_loop xs body t = Inr s'"
    by (auto split: sum.splits)
  from assms(3) [OF Cons.prems(2) step] have "P t" .
  with rest show ?case by (rule Cons.IH)
qed

lemma bind_Inr: "bind m f = Inr y \<Longrightarrow> \<exists>x. m = Inr x \<and> f x = Inr y"
  by (cases m) (simp_all add: bind_def)

text \<open>The loop body shared by the two branches of \<^verbatim>\<open>TranslatorBySequence.all\<close>.\<close>

lemma sequence_step_distinct:
  assumes "distinct results"
    and "bind partial (\<lambda>partial_results.
           if truthy partial_results
           then bind (py_iter partial_results) (\<lambda>items. Inr (add_all_unique items results))
           else Inr results) = Inr results'"
  shows "distinct results'"
proof -
  from bind_Inr [OF assms(2)] obtain pr where
    pr: "(if truthy pr
          then bind (py_iter pr) (\<lambda>items. Inr (add_all_unique items results))
          else Inr results) = Inr results'"
    by blast
  show ?thesis
  proof (cases "truthy pr")
    case True
    with pr have "bind (py_iter pr) (\<lambda>items. Inr (add_all_unique items results)) = Inr results'"
      by simp
    from bind_Inr [OF this] obtain items where "results' = add_all_unique items results"
      by auto
    with assms(1) show ?thesis by (simp add: distinct_add_all_unique)
  next
    case False
    with pr assms(1) show ?thesis by simp
  qed
qed

lemma sequence_all_distinct:
  assumes "all ev (TranslatorBySequence sequence) strings strings_first = Inr r"
  shows "\<exists>vs. r = PList vs \<and> distinct vs"
proof (cases strings_first)
  case True
  with assms obtain strs vs where
    loop: "for_loop strs
             (\<lambda>string results.
                for_loop sequence
                  (\<lambda>translator results.
                     bind (all ev translator string False) (\<lambda>partial_results.
                       if truthy partial_results
                       then bind (py_iter partial_results)
                              (\<lambda>items. Inr (add_all_unique items results))
                       else Inr results))
                  results)
             [] = Inr vs"
    and r: "r = PList vs"
    by (auto simp: Let_def dest!: bind_Inr)
  have "distinct vs"
  proof (rule for_loop_invariant [OF loop, where P = distinct])
    show "distinct ([] :: pyval list)" by simp
  next
    fix string t t'
    assume t: "distinct t"
      and inner: "for_loop sequence
                    (\<lambda>translator results.
                       bind (all ev translator string False) (\<lambda>partial_results.
                         if truthy partial_results
                         then bind (py_iter partial_results)
                                (\<lambda>items. Inr (add_all_unique items results))
                         else Inr results))
                    t = Inr t'"
    show "distinct t'"
      by (rule for_loop_invariant [OF inner, where P = distinct])
        (fact t, erule sequence_step_distinct)
  qed
  with r show ?thesis by simp
next
  case False
  with assms obtain vs where
    loop: "for_loop sequence
             (\<lambda>translator results.
                bind (all ev translator (listify strings) False) (\<lambda>partial_results.
                  if truthy partial_results
                  then bind (py_iter partial_results)
                         (\<lambda>items. Inr (add_all_unique items results))
                  else Inr results))
             [] = Inr vs"
    and r: "r = PList vs"
    by (auto simp: Let_def dest!: bind_Inr)
  have "distinct vs"
    by (rule for_loop_invariant [OF loop, where P = distinct])
      (simp, erule sequence_step_distinct)
  with r show ?thesis by simp
qed

lemma dict_all_distinct:
  assumes "all ev (TranslatorByDict dict path_translator) strings strings_first = Inr r"
  shows "\<exists>vs. r = PList vs \<and> distinct vs"
proof -
  from assms obtain ks vs where
    loop: "for_loop ks
             (\<lambda>key results.
                bind (dict_get dict key) (\<lambda>found.
                  case found of
                    None \<Rightarrow> Inr results
                  | Some (k, result) \<Rightarrow> Inr (add_all_unique (Dict_expand result k) results)))
             [] = Inr vs"
    and r: "r = PList vs"
    by (auto simp: Let_def dest!: bind_Inr)
  have "distinct vs"
  proof (rule for_loop_invariant [OF loop, where P = distinct])
    show "distinct ([] :: pyval list)" by simp
  next
    fix key t t'
    assume "distinct t"
      and "bind (dict_get dict key) (\<lambda>found.
             case found of
               None \<Rightarrow> Inr t
             | Some (k, result) \<Rightarrow> Inr (add_all_unique (Dict_expand result k) t)) = Inr t'"
    then show "distinct t'"
      by (auto dest!: bind_Inr simp: distinct_add_all_unique split: option.splits)
  qed
  with r show ?thesis by simp
qed

lemma regex_step_distinct:
  assumes "distinct results"
    and "bind e (\<lambda>expanded. Inr (add_all_unique expanded results)) = Inr results'"
  shows "distinct results'"
  using assms by (auto dest!: bind_Inr simp: distinct_add_all_unique)

lemma regex_all_distinct:
  assumes "all ev (TranslatorByRegex tuples) strings strings_first = Inr r"
  shows "\<exists>vs. r = PList vs \<and> distinct vs"
proof (cases strings_first)
  case True
  with assms obtain strs vs where
    loop: "for_loop strs
             (\<lambda>string results.
                for_loop tuples
                  (\<lambda>(regex, replacement) results.
                     bind (expand ev regex string replacement) (\<lambda>expanded.
                       Inr (add_all_unique expanded results)))
                  results)
             [] = Inr vs"
    and r: "r = PList vs"
    by (auto simp: Let_def dest!: bind_Inr)
  have "distinct vs"
  proof (rule for_loop_invariant [OF loop, where P = distinct])
    show "distinct ([] :: pyval list)" by simp
  next
    fix string t t'
    assume t: "distinct t"
      and inner: "for_loop tuples
                    (\<lambda>(regex, replacement) results.
                       bind (expand ev regex string replacement) (\<lambda>expanded.
                         Inr (add_all_unique expanded results)))
                    t = Inr t'"
    show "distinct t'"
      by (rule for_loop_invariant [OF inner, where P = distinct])
        (fact t, auto elim: regex_step_distinct)
  qed
  with r show ?thesis by simp
next
  case False
  with assms obtain vs where
    loop: "for_loop tuples
             (\<lambda>(regex, replacement) results.
                bind (py_iter (listify strings)) (\<lambda>strs.
                  for_loop strs
                    (\<lambda>string results.
                       bind (expand ev regex string replacement) (\<lambda>expanded.
                         Inr (add_all_unique expanded results)))
                    results))
             [] = Inr vs"
    and r: "r = PList vs"
    by (auto simp: Let_def dest!: bind_Inr)
  have "distinct vs"
  proof (rule for_loop_invariant [OF loop, where P = distinct])
    show "distinct ([] :: pyval list)" by simp
  next
    fix rule t t'
    assume t: "distinct t"
      and step: "(case rule of (regex, replacement) \<Rightarrow> \<lambda>results.
                    bind (py_iter (listify strings)) (\<lambda>strs.
                      for_loop strs
                        (\<lambda>string results.
                           bind (expand ev regex string replacement) (\<lambda>expanded.
                             Inr (add_all_unique expanded results)))
                        results)) t = Inr t'"
    obtain regex replacement where rule: "rule = (regex, replacement)"
      by (cases rule)
    from step rule obtain strs where
      inner: "for_loop strs
                (\<lambda>string results.
                   bind (expand ev regex string replacement) (\<lambda>expanded.
                     Inr (add_all_unique expanded results)))
                t = Inr t'"
      by (auto dest!: bind_Inr)
    show "distinct t'"
      by (rule for_loop_invariant [OF inner, where P = distinct])
        (fact t, erule regex_step_distinct)
  qed
  with r show ?thesis by simp
qed

text \<open>
  C3 (as amended). For every translator other than the Identity translator itself, every
  argument and either value of \<^verbatim>\<open>strings_first\<close>, what \<^verbatim>\<open>all\<close> returns is a list without
  two equal entries. The Identity translator returns its argument unchanged, with
  whatever duplicates it holds.
\<close>

theorem all_distinct:
  "(t \<noteq> SelfTranslator \<and> all ev t strings strings_first = Inr r
      \<longrightarrow> (\<exists>vs. r = PList vs \<and> distinct vs))
   \<and> all ev SelfTranslator strings strings_first = Inr strings"
proof -
  have self: "all ev SelfTranslator strings strings_first = Inr strings"
    by simp
  have "\<exists>vs. r = PList vs \<and> distinct vs"
    if "t \<noteq> SelfTranslator" and run: "all ev t strings strings_first = Inr r"
  proof (cases t)
    case (TranslatorBySequence sequence)
    with run show ?thesis by (blast dest: sequence_all_distinct)
  next
    case (TranslatorByDict dict path_translator)
    with run show ?thesis by (blast dest: dict_all_distinct)
  next
    case (TranslatorByRegex tuples)
    with run show ?thesis by (blast dest: regex_all_distinct)
  next
    case NullTranslator
    with run show ?thesis by auto
  next
    case SelfTranslator
    with that(1) show ?thesis by simp
  qed
  with self show ?thesis by blast
qed

theorem all_distinct_witness:
  "TranslatorBySequence [D1, SelfTranslator] \<noteq> SelfTranslator
   \<and> all (\<lambda>frame. Inl EvalError) (TranslatorBySequence [D1, SelfTranslator])
         (PList [Str ''a'', Str ''a'', Str ''b'', Str ''2''])  True
       = Inr (PList [Str ''1'', Str ''a'', Str ''2'', Str ''b''])
   \<and> distinct [Str ''1'', Str ''a'', Str ''2'', Str ''b'']
   \<and> all (\<lambda>frame. Inl EvalError) SelfTranslator (PList [Str ''a'', Str ''a'']) True
       = Inr (PList [Str ''a'', Str ''a''])"
proof -
  have run: "all (\<lambda>frame. Inl EvalError) (TranslatorBySequence [D1, SelfTranslator])
         (PList [Str ''a'', Str ''a'', Str ''b'', Str ''2'']) True
       = Inr (PList [Str ''1'', Str ''a'', Str ''2'', Str ''b''])"
    by (simp add: D1_def bind_def dict_get_def Dict_expand_def Dict_expand_result_def
        add_unique_def replace_def backslash_one_def)
  from all_distinct [of "TranslatorBySequence [D1, SelfTranslator]" "\<lambda>frame. Inl EvalError"
      "PList [Str ''a'', Str ''a'', Str ''b'', Str ''2'']" True
      "PList [Str ''1'', Str ''a'', Str ''2'', Str ''b'']"] run
  show ?thesis by simp
qed

text \<open>
  The Identity translator hands a list with a repeated string back as it is.
\<close>

theorem identity_duplicates_counterexample:
  "all (\<lambda>frame. Inl EvalError) SelfTranslator (PList [Str ''a'', Str ''a'']) False
     = Inr (PList [Str ''a'', Str ''a''])
   \<and> \<not> distinct [Str ''a'', Str ''a'']"
  by simp

section \<open>A model of Python's regular expressions for concrete patterns\<close>

text \<open>
  The theorems about the expansion engine hold for every behaviour of the \<^verbatim>\<open>re\<close> module.
  Examples need concrete compiled patterns; this section models those that the
  examples use, together with \<^verbatim>\<open>Match.expand\<close> for a pattern without named groups, after
  the documentation of \<^verbatim>\<open>re\<close>: in a template, \<^verbatim>\<open>\1\<close> to \<^verbatim>\<open>\99\<close> and \<^verbatim>\<open>\g<n>\<close> stand for a
  group (an unmatched group for the empty string, a group that the pattern does not have
  is an error), \<^verbatim>\<open>\0\<close> and three octal digits for a character, \<^verbatim>\<open>\a \b \f \n \r \t \v \\\<close>
  for the usual characters; a backslash before another ASCII letter or at the end is an
  error, and a backslash before anything else is kept.
\<close>

definition backslash :: char where
  "backslash = CHR 0x5C"

definition is_digit :: "char \<Rightarrow> bool" where
  "is_digit c = (let n = (of_char c :: nat) in 48 \<le> n \<and> n \<le> 57)"

definition is_octdigit :: "char \<Rightarrow> bool" where
  "is_octdigit c = (let n = (of_char c :: nat) in 48 \<le> n \<and> n \<le> 55)"

definition is_ascii_letter :: "char \<Rightarrow> bool" where
  "is_ascii_letter c =
     (let n = (of_char c :: nat) in (65 \<le> n \<and> n \<le> 90) \<or> (97 \<le> n \<and> n \<le> 122))"

definition is_word :: "char \<Rightarrow> bool" where
  "is_word c = (is_ascii_letter c \<or> is_digit c \<or> c = CHR ''_'')"

definition digit_value :: "char \<Rightarrow> nat" where
  "digit_value c = of_char c - 48"

fun number_of :: "nat \<Rightarrow> nat \<Rightarrow> string \<Rightarrow> nat" where
  "number_of base acc [] = acc"
| "number_of base acc (c # s) = number_of base (base * acc + digit_value c) s"

datatype piece = Literal string | Group nat

text \<open>The first token of a non-empty template and the number of characters it takes.\<close>

definition escape_char :: "char \<Rightarrow> char option" where
  "escape_char e =
     map_of [(CHR ''a'', CHR 0x07), (CHR ''b'', CHR 0x08), (CHR ''f'', CHR 0x0C),
             (CHR ''n'', CHR 0x0A), (CHR ''r'', CHR 0x0D), (CHR ''t'', CHR 0x09),
             (CHR ''v'', CHR 0x0B), (backslash, backslash)] e"

definition group_reference :: "string \<Rightarrow> error + piece \<times> nat" where
  "group_reference s1 =
     (if take 1 s1 \<noteq> ''<'' \<or> CHR ''>'' \<notin> set (drop 1 s1) then Inl ReError
      else
        (let name = takeWhile (\<lambda>c. c \<noteq> CHR ''>'') (drop 1 s1) in
         if name = [] then Inl ReError
         else if list_all is_digit name then Inr (Group (number_of 10 0 name), length name + 4)
         else if \<not> is_digit (hd name) \<and> list_all is_word name then Inl IndexError
         else Inl ReError))"

definition octal_escape :: "string \<Rightarrow> error + piece \<times> nat" where
  "octal_escape s1 =
     (let digits = takeWhile is_octdigit (take 2 s1) in
      Inr (Literal [char_of (number_of 8 0 digits mod 256)], length digits + 2))"

definition digit_escape :: "char \<Rightarrow> string \<Rightarrow> error + piece \<times> nat" where
  "digit_escape e s1 =
     (case s1 of
        [] \<Rightarrow> Inr (Group (digit_value e), 2)
      | d # s2 \<Rightarrow>
          if \<not> is_digit d then Inr (Group (digit_value e), 2)
          else if is_octdigit e \<and> is_octdigit d \<and> s2 \<noteq> [] \<and> is_octdigit (hd s2)
          then (let code = number_of 8 0 [e, d, hd s2] in
                if code > 255 then Inl ReError else Inr (Literal [char_of code], 4))
          else Inr (Group (number_of 10 0 [e, d]), 3))"

definition template_token :: "char \<Rightarrow> string \<Rightarrow> error + piece \<times> nat" where
  "template_token c s =
     (if c \<noteq> backslash then Inr (Literal [c], 1)
      else
        (case s of
           [] \<Rightarrow> Inl ReError
         | e # s1 \<Rightarrow>
             if e = CHR ''g'' then group_reference s1
             else if e = CHR ''0'' then octal_escape s1
             else if is_digit e then digit_escape e s1
             else (case escape_char e of
                     Some x \<Rightarrow> Inr (Literal [x], 2)
                   | None \<Rightarrow>
                       if is_ascii_letter e then Inl ReError
                       else Inr (Literal [c, e], 2))))"

definition piece_text :: "string option list \<Rightarrow> piece \<Rightarrow> error + string" where
  "piece_text groups p =
     (case p of
        Literal text \<Rightarrow> Inr text
      | Group index \<Rightarrow>
          if index < length groups
          then Inr (case groups ! index of None \<Rightarrow> [] | Some text \<Rightarrow> text)
          else Inl ReError)"

fun expand_from :: "nat \<Rightarrow> string option list \<Rightarrow> string \<Rightarrow> error + string" where
  "expand_from skip groups [] = Inr []"
| "expand_from (Suc skip) groups (c # s) = expand_from skip groups s"
| "expand_from 0 groups (c # s) =
     (case template_token c s of
        Inl e \<Rightarrow> Inl e
      | Inr (p, n) \<Rightarrow>
          (case piece_text groups p of
             Inl e \<Rightarrow> Inl e
           | Inr text \<Rightarrow>
               (case expand_from (n - 1) groups s of
                  Inl e \<Rightarrow> Inl e
                | Inr rest \<Rightarrow> Inr (text @ rest))))"

text \<open>
  The match object of a match with the given groups; group 0 is the whole match.
\<close>

definition match_with :: "string option list \<Rightarrow> matchobj" where
  "match_with groups template = expand_from 0 groups template"

text \<open>
  \<^verbatim>\<open>re.compile(r'^(\w+)$')\<close>, the pattern of the repository's tests of \<^verbatim>\<open>expand\<close>. On ASCII
  text \<^verbatim>\<open>\w\<close> is a letter, a digit or the underscore. \<^verbatim>\<open>match\<close> and \<^verbatim>\<open>search\<close> succeed on a
  non-empty run of word characters that ends the string or stands before one final
  newline (\<^verbatim>\<open>$\<close> matches there too); \<^verbatim>\<open>fullmatch\<close> succeeds only when the run is the whole
  string. Groups 0 and 1 are the run.
\<close>

definition word_regex :: regex where
  "word_regex =
     \<lparr>re_match = (\<lambda>s.
        let w = takeWhile is_word s; rest = dropWhile is_word s in
        if w \<noteq> [] \<and> (rest = [] \<or> rest = [CHR 0x0A])
        then Some (match_with [Some w, Some w])
        else None),
      re_search = (\<lambda>s.
        let w = takeWhile is_word s; rest = dropWhile is_word s in
        if w \<noteq> [] \<and> (rest = [] \<or> rest = [CHR 0x0A])
        then Some (match_with [Some w, Some w])
        else None),
      re_fullmatch = (\<lambda>s.
        if s \<noteq> [] \<and> list_all is_word s then Some (match_with [Some s, Some s]) else None)\<rparr>"

text \<open>
  \<^verbatim>\<open>re.compile('a')\<close>: \<^verbatim>\<open>match\<close> succeeds when the string starts with the letter, whatever
  follows; \<^verbatim>\<open>search\<close> when the letter occurs in the string; \<^verbatim>\<open>fullmatch\<close> when the string
  is the letter.
\<close>

definition letter_a_regex :: regex where
  "letter_a_regex =
     \<lparr>re_match = (\<lambda>s. if take 1 s = ''a'' then Some (match_with [Some ''a'']) else None),
      re_search = (\<lambda>s. if CHR ''a'' \<in> set s then Some (match_with [Some ''a'']) else None),
      re_fullmatch = (\<lambda>s. if s = ''a'' then Some (match_with [Some ''a'']) else None)\<rparr>"

text \<open>
  \<^verbatim>\<open>re.compile('^a|b$')\<close>. The alternation binds weaker than the anchors: the pattern is
  \<^verbatim>\<open>^a\<close> or \<^verbatim>\<open>b$\<close>. \<^verbatim>\<open>match\<close> succeeds on a string that starts with \<^verbatim>\<open>a\<close>, and on \<^verbatim>\<open>b\<close> with
  or without a final newline; \<^verbatim>\<open>search\<close> also on a string that ends in \<^verbatim>\<open>b\<close>, with or without
  a final newline; \<^verbatim>\<open>fullmatch\<close> on the two strings \<^verbatim>\<open>a\<close> and \<^verbatim>\<open>b\<close>.
\<close>

definition a_or_b_regex :: regex where
  "a_or_b_regex =
     \<lparr>re_match = (\<lambda>s.
        if take 1 s = ''a'' then Some (match_with [Some ''a''])
        else if s = ''b'' \<or> s = [CHR ''b'', CHR 0x0A] then Some (match_with [Some ''b''])
        else None),
      re_search = (\<lambda>s.
        if take 1 s = ''a'' then Some (match_with [Some ''a''])
        else if take 1 (rev s) = ''b'' \<or> take 2 (rev s) = [CHR 0x0A, CHR ''b'']
        then Some (match_with [Some ''b''])
        else None),
      re_fullmatch = (\<lambda>s.
        if s = ''a'' then Some (match_with [Some ''a''])
        else if s = ''b'' then Some (match_with [Some ''b''])
        else None)\<rparr>"

section \<open>Case directives\<close>















lemma evaluate_dict_no_match: "findall_dict str = [] \<Longrightarrow> evaluate_dict ev str = Inr str"
  by (simp add: evaluate_dict_def bind_def)


lemma expand_one_string:
  assumes "re_match regex x = Some m"
  shows "expand ev regex (Str x) (Str r) = bind (expand_string ev m r) (\<lambda>a. Inr [Str a])"
  using assms by (simp add: expand_def expand_replacement_def bind_def split: sum.splits)

lemma word_regex_test:
  "re_match word_regex ''test'' = Some (match_with [Some ''test'', Some ''test''])"
  by (simp add: word_regex_def is_word_def is_ascii_letter_def is_digit_def Let_def)



lemma ascii_text_simps [simp]:
  "ascii_text []"
  "ascii_text (c # s) = ((of_char c :: nat) < 128 \<and> ascii_text s)"
  by (simp_all add: ascii_text_def)




section \<open>Tuple replacements\<close>

lemma expand_one_tuple_string:
  assumes "re_match regex x = Some m"
  shows "expand ev regex (Str x) (Tuple [Str i])
           = bind (expand_string ev m i) (\<lambda>result.
               bind (m result) (\<lambda>result'. Inr [Tuple [Str result']]))"
  using assms
  by (simp add: expand_def expand_replacement_def expand_item_def bind_def split: sum.splits)

lemma match_with_escaped:
  "match_with [Some ''test'', Some ''test''] [backslash, backslash, CHR ''1'']
     = Inr [backslash, CHR ''1'']"
  by (simp add: match_with_def template_token_def escape_char_def is_digit_def backslash_def
      piece_text_def)

lemma match_with_group:
  "match_with [Some ''test'', Some ''test''] [backslash, CHR ''1''] = Inr ''test''"
  by (simp add: match_with_def template_token_def is_digit_def backslash_def digit_escape_def
      digit_value_def piece_text_def)

lemma expand_string_escaped:
  "expand_string ev (match_with [Some ''test'', Some ''test'']) [backslash, backslash, CHR ''1'']
     = Inr [backslash, CHR ''1'']"
proof -
  have "fix_case [backslash, CHR ''1''] = [backslash, CHR ''1'']"
    by (simp add: fix_case_def backslash_def)
  moreover have "findall_dict [backslash, CHR ''1''] = []"
    by (simp add: findall_dict_def backslash_def)
  ultimately show ?thesis
    unfolding expand_string_def match_with_escaped
    by (simp add: bind_def evaluate_dict_def)
qed

text \<open>
  C8. A string element of a tuple is not processed like a bare string: after
  back-reference substitution, case directives and inline lookup, the match object
  expands the result a second time. For the pattern \<^verbatim>\<open>^(\w+)$\<close> matched on \<^verbatim>\<open>test\<close>, the
  replacement \<^verbatim>\<open>\\1\<close> (an escaped backslash before the digit) gives \<^verbatim>\<open>\1\<close> as a bare
  string and \<^verbatim>\<open>test\<close> inside a tuple.
\<close>

theorem tuple_item_expanded_twice:
  "(re_match regex x = Some m
      \<longrightarrow> expand ev regex (Str x) (Str i)
            = bind (expand_string ev m i) (\<lambda>result. Inr [Str result])
        \<and> expand ev regex (Str x) (Tuple [Str i])
            = bind (expand_string ev m i) (\<lambda>result.
                bind (m result) (\<lambda>result'. Inr [Tuple [Str result']])))
   \<and> expand ev word_regex (Str ''test'') (Str [backslash, backslash, CHR ''1''])
       = Inr [Str [backslash, CHR ''1'']]
   \<and> expand ev word_regex (Str ''test'') (Tuple [Str [backslash, backslash, CHR ''1'']])
       = Inr [Tuple [Str ''test'']]"
proof -
  let ?m = "match_with [Some ''test'', Some ''test'']"
  let ?i = "[backslash, backslash, CHR ''1'']"
  have bare: "expand ev word_regex (Str ''test'') (Str ?i) = Inr [Str [backslash, CHR ''1'']]"
    using expand_one_string [of word_regex "''test''" ?m ev ?i] word_regex_test
    by (simp add: expand_string_escaped bind_def)
  have tuple: "expand ev word_regex (Str ''test'') (Tuple [Str ?i]) = Inr [Tuple [Str ''test'']]"
    using expand_one_tuple_string [of word_regex "''test''" ?m ev ?i] word_regex_test
    by (simp add: expand_string_escaped match_with_group bind_def)
  from bare tuple expand_one_string [of regex x m ev i]
    expand_one_tuple_string [of regex x m ev i]
  show ?thesis by blast
qed

theorem tuple_item_expanded_twice_witness:
  "re_match word_regex ''test'' = Some (match_with [Some ''test'', Some ''test''])
   \<and> expand (\<lambda>frame. Inl EvalError) word_regex (Str ''test'') (Str [backslash, CHR ''1''])
       = Inr [Str ''test'']
   \<and> expand (\<lambda>frame. Inl EvalError) word_regex (Str ''test'') (Tuple [Str [backslash, CHR ''1'']])
       = Inr [Tuple [Str ''test'']]
   \<and> expand (\<lambda>frame. Inl EvalError) word_regex (Str ''test'')
         (Tuple [Str [backslash, backslash, CHR ''1'']])
       = Inr [Tuple [Str ''test'']]"
proof -
  let ?m = "match_with [Some ''test'', Some ''test'']"
  have "fix_case ''test'' = ''test''"
    by (simp add: fix_case_def)
  moreover have "findall_dict ''test'' = []"
    by (simp add: findall_dict_def)
  ultimately have "expand_string (\<lambda>frame. Inl EvalError) ?m [backslash, CHR ''1''] = Inr ''test''"
    unfolding expand_string_def match_with_group
    by (simp add: bind_def evaluate_dict_def)
  moreover have "?m ''test'' = Inr ''test''"
    by (simp add: match_with_def template_token_def backslash_def piece_text_def)
  ultimately show ?thesis
    using tuple_item_expanded_twice [of word_regex "''test''" ?m "\<lambda>frame. Inl EvalError"
        "[backslash, CHR ''1'']"] word_regex_test
    by (simp add: bind_def)
qed

section \<open>Compiled patterns and pattern strings\<close>

lemma compile_compiled_rules:
  "for_loop (map (\<lambda>(regex, v). Rule2 (Compiled regex) v) tuples)
     (\<lambda>items compiled_tuples.
        bind (compile_rule re_compile items) (\<lambda>c. Inr (compiled_tuples @ [c])))
     compiled
   = Inr (compiled @ tuples)"
  by (induction tuples arbitrary: compiled) (auto simp: compile_rule_def bind_def)

lemma expand_number:
  "expand ev regex (Str s) (PInt n)
     = Inr (case re_match regex s of None \<Rightarrow> [] | Some m \<Rightarrow> [PInt n])"
  by (simp add: expand_def expand_replacement_def split: option.splits)

lemma expand_match_only:
  "expand ev (regex\<lparr>re_search := search, re_fullmatch := fullmatch\<rparr>) string replacements
     = expand ev regex string replacements"
  by (cases string) (simp_all add: expand_def)

lemma expand_plain_string:
  assumes "re_match regex x = Some (match_with groups)"
  shows "expand ev regex (Str x) (Str ''x'') = Inr [Str ''x'']"
proof -
  have "match_with groups ''x'' = Inr ''x''"
    by (simp add: match_with_def template_token_def backslash_def piece_text_def)
  moreover have "fix_case ''x'' = ''x''"
    by (simp add: fix_case_def)
  moreover have "findall_dict ''x'' = []"
    by (simp add: findall_dict_def)
  ultimately have "expand_string ev (match_with groups) ''x'' = Inr ''x''"
    by (simp add: expand_string_def bind_def evaluate_dict_no_match)
  with expand_one_string [of regex x "match_with groups" ev "''x''"] assms show ?thesis
    by (simp add: bind_def)
qed

text \<open>The pattern string \<^verbatim>\<open>(\w+)\<close>.\<close>

definition word_pattern :: string where
  "word_pattern = ''('' @ [backslash] @ ''w+)''"

text \<open>
  \<^verbatim>\<open>re.compile\<close> on the two texts that the constructor builds from the pattern strings
  \<^verbatim>\<open>(\w+)\<close> and \<^verbatim>\<open>a|b\<close>, without flags. Every other call is outside this model and stands
  as an error; nothing is stated about it.
\<close>

definition compile_examples :: compiler where
  "compile_examples pattern_text flags =
     (if flags = 0 \<and> pattern_text = ''^'' @ word_pattern @ ''$'' then Inr word_regex
      else if flags = 0 \<and> pattern_text = ''^a|b$'' then Inr a_or_b_regex
      else Inl ReError)"

text \<open>
  C10. A rule whose first element is a compiled pattern is stored as it is: the
  constructor does not call \<^verbatim>\<open>re.compile\<close> for it and adds no anchors, whereas a pattern
  string \<open>p\<close> is compiled from \<^verbatim>\<open>'^' + p + '$'\<close>. Whether a string produces a result is
  decided by the \<^verbatim>\<open>match\<close> method of the stored pattern and by nothing else of it, and
  \<^verbatim>\<open>match\<close> anchors at the start only: the compiled pattern \<^verbatim>\<open>a\<close> translates \<^verbatim>\<open>ab\<close>, which
  \<^verbatim>\<open>fullmatch\<close> rejects, and does not translate \<^verbatim>\<open>ba\<close>, which \<^verbatim>\<open>search\<close> accepts.

  The wrapping of a pattern string does not give the full-string match that it is
  written for. \<^verbatim>\<open>$\<close> also matches before a final newline, so the rule with the pattern
  string \<^verbatim>\<open>(\w+)\<close> translates \<^verbatim>\<open>test\<close> followed by a newline; and the pattern string is not
  grouped, so the rule with the pattern string \<^verbatim>\<open>a|b\<close> is compiled from \<^verbatim>\<open>^a|b$\<close> and
  translates \<^verbatim>\<open>axyz\<close>. Neither string matches its pattern in full.
\<close>

theorem pattern_rules:
  "TranslatorByRegex_init re_compile (map (\<lambda>(regex, v). Rule2 (Compiled regex) v) tuples)
     = Inr (TranslatorByRegex tuples)
   \<and> TranslatorByRegex_init re_compile [Rule2 (PatternString p) v]
       = bind (re_compile (''^'' @ p @ ''$'') 0) (\<lambda>regex. Inr (TranslatorByRegex [(regex, v)]))
   \<and> TranslatorByRegex_init re_compile [Rule3 p flags v]
       = bind (re_compile (''^'' @ p @ ''$'') flags)
           (\<lambda>regex. Inr (TranslatorByRegex [(regex, v)]))
   \<and> expand ev regex (Str s) (PInt n)
       = Inr (case re_match regex s of None \<Rightarrow> [] | Some m \<Rightarrow> [PInt n])
   \<and> expand ev (regex\<lparr>re_search := search, re_fullmatch := fullmatch\<rparr>) string replacements
       = expand ev regex string replacements
   \<and> bind (TranslatorByRegex_init re_compile [Rule2 (Compiled letter_a_regex) (PInt 1)])
         (\<lambda>translator. all ev translator (Str ''ab'') strings_first)
       = Inr (PList [PInt 1])
   \<and> re_fullmatch letter_a_regex ''ab'' = None
   \<and> bind (TranslatorByRegex_init re_compile [Rule2 (Compiled letter_a_regex) (PInt 1)])
         (\<lambda>translator. all ev translator (Str ''ba'') strings_first)
       = Inr (PList [])
   \<and> re_search letter_a_regex ''ba'' = Some (match_with [Some ''a''])
   \<and> (re_compile (''^'' @ word_pattern @ ''$'') 0 = Inr word_regex
        \<longrightarrow> bind (TranslatorByRegex_init re_compile [Rule2 (PatternString word_pattern) (Str ''x'')])
              (\<lambda>translator. all ev translator (Str (''test'' @ [CHR 0x0A])) strings_first)
            = Inr (PList [Str ''x'']))
   \<and> re_fullmatch word_regex (''test'' @ [CHR 0x0A]) = None
   \<and> (re_compile ''^a|b$'' 0 = Inr a_or_b_regex
        \<longrightarrow> bind (TranslatorByRegex_init re_compile [Rule2 (PatternString ''a|b'') (Str ''x'')])
              (\<lambda>translator. all ev translator (Str ''axyz'') strings_first)
            = Inr (PList [Str ''x'']))
   \<and> re_fullmatch a_or_b_regex ''axyz'' = None"
proof -
  have stored: "TranslatorByRegex_init re_compile
                  (map (\<lambda>(regex, v). Rule2 (Compiled regex) v) tuples)
                = Inr (TranslatorByRegex tuples)" for tuples
    unfolding TranslatorByRegex_init_def compile_compiled_rules by (simp add: bind_def)
  have string: "TranslatorByRegex_init re_compile [Rule2 (PatternString p) v]
       = bind (re_compile (''^'' @ p @ ''$'') 0) (\<lambda>regex. Inr (TranslatorByRegex [(regex, v)]))"
    for p v
    by (simp add: TranslatorByRegex_init_def compile_rule_def bind_def split: sum.splits)
  have flags: "TranslatorByRegex_init re_compile [Rule3 p flags v]
       = bind (re_compile (''^'' @ p @ ''$'') flags)
           (\<lambda>regex. Inr (TranslatorByRegex [(regex, v)]))"
    by (simp add: TranslatorByRegex_init_def compile_rule_def bind_def split: sum.splits)
  have letter: "TranslatorByRegex_init re_compile [Rule2 (Compiled letter_a_regex) (PInt 1)]
                  = Inr (TranslatorByRegex [(letter_a_regex, PInt 1)])"
    using stored [of "[(letter_a_regex, PInt 1)]"] by simp
  have prefix: "all ev (TranslatorByRegex [(letter_a_regex, PInt 1)]) (Str ''ab'') strings_first
                  = Inr (PList [PInt 1])"
    by (cases strings_first)
      (simp_all add: expand_number letter_a_regex_def bind_def add_unique_def)
  have start: "all ev (TranslatorByRegex [(letter_a_regex, PInt 1)]) (Str ''ba'') strings_first
                 = Inr (PList [])"
    by (cases strings_first)
      (simp_all add: expand_number letter_a_regex_def bind_def add_unique_def)
  have methods: "re_fullmatch letter_a_regex ''ab'' = None"
    "re_search letter_a_regex ''ba'' = Some (match_with [Some ''a''])"
    "re_fullmatch word_regex (''test'' @ [CHR 0x0A]) = None"
    "re_fullmatch a_or_b_regex ''axyz'' = None"
    by (simp_all add: letter_a_regex_def word_regex_def a_or_b_regex_def is_word_def
        is_ascii_letter_def is_digit_def)
  have word_match: "re_match word_regex (''test'' @ [CHR 0x0A])
                      = Some (match_with [Some ''test'', Some ''test''])"
    by (simp add: word_regex_def is_word_def is_ascii_letter_def is_digit_def Let_def)
  have newline: "all ev (TranslatorByRegex [(word_regex, Str ''x'')])
                     (Str (''test'' @ [CHR 0x0A])) strings_first
                   = Inr (PList [Str ''x''])"
    using expand_plain_string [OF word_match, of ev]
    by (cases strings_first) (simp_all add: bind_def add_unique_def)
  have a_match: "re_match a_or_b_regex ''axyz'' = Some (match_with [Some ''a''])"
    by (simp add: a_or_b_regex_def)
  have alternative: "all ev (TranslatorByRegex [(a_or_b_regex, Str ''x'')]) (Str ''axyz'')
                         strings_first
                       = Inr (PList [Str ''x''])"
    using expand_plain_string [OF a_match, of ev]
    by (cases strings_first) (simp_all add: bind_def add_unique_def)
  have word_rule: "bind (TranslatorByRegex_init re_compile
                           [Rule2 (PatternString word_pattern) (Str ''x'')])
              (\<lambda>translator. all ev translator (Str (''test'' @ [CHR 0x0A])) strings_first)
            = Inr (PList [Str ''x''])"
    if "re_compile (''^'' @ word_pattern @ ''$'') 0 = Inr word_regex"
    unfolding string that using newline by (simp add: bind_def)
  have a_or_b_rule: "bind (TranslatorByRegex_init re_compile
                             [Rule2 (PatternString ''a|b'') (Str ''x'')])
              (\<lambda>translator. all ev translator (Str ''axyz'') strings_first)
            = Inr (PList [Str ''x''])"
    if "re_compile ''^a|b$'' 0 = Inr a_or_b_regex"
    using string [of "''a|b''" "Str ''x''"] that alternative by (simp add: bind_def)
  have compiled: "bind (TranslatorByRegex_init re_compile
                          [Rule2 (Compiled letter_a_regex) (PInt 1)])
         (\<lambda>translator. all ev translator (Str s) strings_first)
       = all ev (TranslatorByRegex [(letter_a_regex, PInt 1)]) (Str s) strings_first" for s
    by (simp add: letter bind_def)
  show ?thesis
    unfolding compiled prefix start
    using stored string flags expand_number expand_match_only methods word_rule a_or_b_rule
    by blast
qed

theorem pattern_rules_witness:
  "compile_examples (''^'' @ word_pattern @ ''$'') 0 = Inr word_regex
   \<and> bind (TranslatorByRegex_init compile_examples
             [Rule2 (PatternString word_pattern) (Str ''x'')])
       (\<lambda>translator. all (\<lambda>frame. Inl EvalError) translator (Str (''test'' @ [CHR 0x0A])) False)
     = Inr (PList [Str ''x''])
   \<and> compile_examples ''^a|b$'' 0 = Inr a_or_b_regex
   \<and> bind (TranslatorByRegex_init compile_examples [Rule2 (PatternString ''a|b'') (Str ''x'')])
       (\<lambda>translator. all (\<lambda>frame. Inl EvalError) translator (Str ''axyz'') False)
     = Inr (PList [Str ''x''])"
proof -
  have word: "compile_examples (''^'' @ word_pattern @ ''$'') 0 = Inr word_regex"
    by (simp add: compile_examples_def)
  have a_or_b: "compile_examples ''^a|b$'' 0 = Inr a_or_b_regex"
    by (simp add: compile_examples_def word_pattern_def)
  from pattern_rules [of compile_examples "[]" "''a''" "Str ''x''" 0 "\<lambda>frame. Inl EvalError"
      letter_a_regex "''a''" 0 Map.empty Map.empty "Str ''a''" "Str ''x''" False] word a_or_b
  show ?thesis by blast
qed

section \<open>Inline dictionary expressions\<close>

text \<open>
  The shape that \<^verbatim>\<open>{.*?}\[.*?\]\<close> asks of a match: a brace, any text, \<^verbatim>\<open>}[\<close>, any text up
  to the first \<^verbatim>\<open>]\<close>, all on one line. Nothing is asked of what stands inside.
\<close>

definition lookup_shaped :: "string \<Rightarrow> bool" where
  "lookup_shaped d =
     (\<exists>a b. d = ''{'' @ a @ ''}['' @ b @ '']''
        \<and> CHR 0x0A \<notin> set a \<and> CHR 0x0A \<notin> set b \<and> CHR '']'' \<notin> set b)"

text \<open>The text contains a piece of that shape.\<close>

definition has_piece :: "string \<Rightarrow> bool" where
  "has_piece s = (\<exists>pre d post. s = pre @ d @ post \<and> lookup_shaped d)"

text \<open>
  \<open>d\<close> is the first piece of \<open>s\<close>, between \<open>pre\<close> and \<open>post\<close>: no piece of the shape starts
  further left, and none that starts at the same place is shorter.
\<close>

definition first_piece :: "string \<Rightarrow> string \<Rightarrow> string \<Rightarrow> string \<Rightarrow> bool" where
  "first_piece s pre d post =
     (s = pre @ d @ post \<and> lookup_shaped d
      \<and> (\<forall>pre' d' post'.
            s = pre' @ d' @ post' \<and> lookup_shaped d'
            \<longrightarrow> length pre < length pre'
                \<or> (length pre = length pre' \<and> length d \<le> length d')))"

lemma match_index_sound:
  "match_index s = Some m \<Longrightarrow>
     \<exists>b post. m = b @ '']'' \<and> s = m @ post \<and> CHR 0x0A \<notin> set b \<and> CHR '']'' \<notin> set b"
proof (induction s arbitrary: m)
  case Nil
  then show ?case by simp
next
  case (Cons c s)
  show ?case
  proof (cases "c = CHR '']''")
    case True
    with Cons.prems have "m = [] @ '']'' \<and> c # s = m @ s" by simp
    then show ?thesis by fastforce
  next
    case False
    with Cons.prems obtain m' where c: "c \<noteq> CHR 0x0A" and m': "match_index s = Some m'"
      and m: "m = c # m'"
      by (auto split: if_splits)
    from Cons.IH [OF m'] obtain b post where
      "m' = b @ '']''" "s = m' @ post" "CHR 0x0A \<notin> set b" "CHR '']'' \<notin> set b"
      by blast
    with m c False have "m = (c # b) @ '']'' \<and> c # s = m @ post
                           \<and> CHR 0x0A \<notin> set (c # b) \<and> CHR '']'' \<notin> set (c # b)"
      by auto
    then show ?thesis by blast
  qed
qed

lemma match_index_complete:
  "CHR 0x0A \<notin> set b \<Longrightarrow> CHR '']'' \<notin> set b \<Longrightarrow> match_index (b @ '']'' @ post) = Some (b @ '']'')"
  by (induction b) auto

lemma match_index_first:
  "match_index (x @ '']'' @ post) = Some m \<Longrightarrow> length m \<le> length x + 1"
proof (induction x arbitrary: m)
  case Nil
  then show ?case by auto
next
  case (Cons c x)
  then show ?case by (auto split: if_splits)
qed

lemma match_braces_sound:
  "match_braces s = Some m \<Longrightarrow>
     \<exists>a b post. m = a @ ''}['' @ b @ '']'' \<and> s = m @ post
       \<and> CHR 0x0A \<notin> set a \<and> CHR 0x0A \<notin> set b \<and> CHR '']'' \<notin> set b"
proof (induction s arbitrary: m)
  case Nil
  then show ?case by simp
next
  case (Cons c s)
  let ?here = "if c = CHR ''}'' \<and> take 1 s = ''[''
               then map_option (\<lambda>m. c # CHR ''['' # m) (match_index (drop 1 s))
               else None"
  show ?case
  proof (cases ?here)
    case (Some found)
    with Cons.prems have found: "found = m" by simp
    from Some obtain m' where c: "c = CHR ''}''" and bracket: "take 1 s = ''[''"
      and m': "match_index (drop 1 s) = Some m'" and "found = c # CHR ''['' # m'"
      by (auto split: if_splits)
    with found have m: "m = ''}['' @ m'" by simp
    from bracket have s: "s = CHR ''['' # drop 1 s"
      by (cases s) simp_all
    from match_index_sound [OF m'] obtain b post where
      "m' = b @ '']''" "drop 1 s = m' @ post" "CHR 0x0A \<notin> set b" "CHR '']'' \<notin> set b"
      by blast
    with m c s have "m = [] @ ''}['' @ b @ '']'' \<and> c # s = m @ post
                       \<and> CHR 0x0A \<notin> set ([] :: string)
                       \<and> CHR 0x0A \<notin> set b \<and> CHR '']'' \<notin> set b"
      by (metis append_Cons append_Nil empty_iff list.set(1))
    then show ?thesis by blast
  next
    case None
    with Cons.prems obtain m' where c: "c \<noteq> CHR 0x0A" and m': "match_braces s = Some m'"
      and m: "m = c # m'"
      by (auto split: if_splits)
    from Cons.IH [OF m'] obtain a b post where
      "m' = a @ ''}['' @ b @ '']''" "s = m' @ post"
      "CHR 0x0A \<notin> set a" "CHR 0x0A \<notin> set b" "CHR '']'' \<notin> set b"
      by blast
    with m c have "m = (c # a) @ ''}['' @ b @ '']'' \<and> c # s = m @ post
                     \<and> CHR 0x0A \<notin> set (c # a)
                     \<and> CHR 0x0A \<notin> set b \<and> CHR '']'' \<notin> set b"
      by auto
    then show ?thesis by blast
  qed
qed

lemma match_braces_complete:
  "CHR 0x0A \<notin> set a \<Longrightarrow> CHR 0x0A \<notin> set b \<Longrightarrow> CHR '']'' \<notin> set b \<Longrightarrow>
     \<exists>m. match_braces (a @ ''}['' @ b @ '']'' @ post) = Some m
       \<and> length m \<le> length a + length b + 3"
proof (induction a)
  case Nil
  with match_index_complete [of b post] show ?case by simp
next
  case (Cons c a)
  let ?s = "a @ ''}['' @ b @ '']'' @ post"
  let ?here = "if c = CHR ''}'' \<and> take 1 ?s = ''[''
               then map_option (\<lambda>m. c # CHR ''['' # m) (match_index (drop 1 ?s))
               else None"
  from Cons.prems have c: "c \<noteq> CHR 0x0A" by auto
  from Cons have "\<exists>m. match_braces ?s = Some m \<and> length m \<le> length a + length b + 3"
    by simp
  then obtain m where m: "match_braces ?s = Some m" and short: "length m \<le> length a + length b + 3"
    by blast
  have unfold: "match_braces ((c # a) @ ''}['' @ b @ '']'' @ post)
                  = (case ?here of
                       Some m \<Rightarrow> Some m
                     | None \<Rightarrow>
                         (if c = CHR 0x0A then None else map_option ((#) c) (match_braces ?s)))"
    by (simp only: append_Cons match_braces.simps)
  show ?case
  proof (cases ?here)
    case None
    have "match_braces ((c # a) @ ''}['' @ b @ '']'' @ post) = Some (c # m)"
      unfolding unfold None using m c by simp
    with short show ?thesis by simp
  next
    case (Some found)
    then obtain mi where bracket: "take 1 ?s = ''[''" and mi: "match_index (drop 1 ?s) = Some mi"
      and found: "found = c # CHR ''['' # mi"
      by (auto split: if_splits)
    from bracket obtain a' where a: "a = CHR ''['' # a'"
      by (cases a) simp_all
    with mi have "match_index ((a' @ ''}['' @ b) @ '']'' @ post) = Some mi"
      by simp
    from match_index_first [OF this] have "length mi \<le> length a' + length b + 3"
      by simp
    with a found have "length found \<le> length (c # a) + length b + 3"
      by simp
    moreover have "match_braces ((c # a) @ ''}['' @ b @ '']'' @ post) = Some found"
      unfolding unfold Some by simp
    ultimately show ?thesis by blast
  qed
qed

lemma findall_from_drop: "findall_from skip s = findall_from 0 (drop skip s)"
  by (induction skip s rule: findall_from.induct) simp_all

lemma findall_dict_match:
  "match_braces (m @ post) = Some m \<Longrightarrow>
     findall_dict (CHR ''{'' # m @ post) = (CHR ''{'' # m) # findall_dict post"
  using findall_from_drop [of "length m" "m @ post"] by (simp add: findall_dict_def)

lemma findall_dict_skip:
  "c \<noteq> CHR ''{'' \<or> match_braces s = None \<Longrightarrow> findall_dict (c # s) = findall_dict s"
  by (auto simp: findall_dict_def)

lemma shaped_prefix_match:
  assumes "lookup_shaped d" and "c # s = d @ post"
  shows "c = CHR ''{'' \<and> (\<exists>m. match_braces s = Some m \<and> length m + 1 \<le> length d)"
proof -
  from assms(1) obtain a b where d: "d = ''{'' @ a @ ''}['' @ b @ '']''"
    and clean: "CHR 0x0A \<notin> set a" "CHR 0x0A \<notin> set b" "CHR '']'' \<notin> set b"
    unfolding lookup_shaped_def by blast
  with assms(2) have c: "c = CHR ''{''" and s: "s = a @ ''}['' @ b @ '']'' @ post"
    by simp_all
  from match_braces_complete [OF clean, of post] s d c show ?thesis
    by auto
qed

lemma findall_dict_pieces:
  "(findall_dict s = [] \<longrightarrow> \<not> has_piece s)
   \<and> (\<forall>d ds. findall_dict s = d # ds
         \<longrightarrow> (\<exists>pre post. first_piece s pre d post \<and> ds = findall_dict post))"
proof (induction s)
  case Nil
  show ?case by (simp add: findall_dict_def has_piece_def lookup_shaped_def)
next
  case (Cons c s)
  show ?case
  proof (cases "c = CHR ''{'' \<and> match_braces s \<noteq> None")
    case True
    then obtain m where c: "c = CHR ''{''" and m: "match_braces s = Some m"
      by auto
    from match_braces_sound [OF m] obtain a b post where
      shape: "m = a @ ''}['' @ b @ '']''" and s: "s = m @ post"
      and clean: "CHR 0x0A \<notin> set a" "CHR 0x0A \<notin> set b" "CHR '']'' \<notin> set b"
      by blast
    have found: "findall_dict (c # s) = (c # m) # findall_dict post"
      using findall_dict_match [of m post] m c s by simp
    have shaped: "lookup_shaped (c # m)"
      unfolding lookup_shaped_def using c shape clean by auto
    have least: "length ([] :: string) < length pre'
                   \<or> (length ([] :: string) = length pre' \<and> length (c # m) \<le> length d')"
      if "c # s = pre' @ d' @ post' \<and> lookup_shaped d'" for pre' d' post'
    proof (cases pre')
      case Nil
      with that shaped_prefix_match [of d' c s post'] m show ?thesis by auto
    next
      case (Cons c' pre'')
      then show ?thesis by simp
    qed
    have "first_piece (c # s) [] (c # m) post"
      unfolding first_piece_def
    proof (intro conjI allI impI)
      show "c # s = [] @ (c # m) @ post"
        using s by simp
      show "lookup_shaped (c # m)"
        by (rule shaped)
      fix pre' d' post'
      assume "c # s = pre' @ d' @ post' \<and> lookup_shaped d'"
      then show "length ([] :: string) < length pre'
                   \<or> (length ([] :: string) = length pre' \<and> length (c # m) \<le> length d')"
        by (rule least)
    qed
    with found show ?thesis by auto
  next
    case False
    then have skip: "findall_dict (c # s) = findall_dict s"
      by (auto simp: findall_dict_skip)
    have no_prefix: "\<not> lookup_shaped d'" if "c # s = d' @ post'" for d' post'
      using shaped_prefix_match [of d' c s post'] that False by auto
    have none: "\<not> has_piece (c # s)" if "\<not> has_piece s"
    proof
      assume "has_piece (c # s)"
      then obtain pre d post where dec: "c # s = pre @ d @ post" and sh: "lookup_shaped d"
        unfolding has_piece_def by blast
      show False
      proof (cases pre)
        case Nil
        with dec sh no_prefix show False by auto
      next
        case (Cons c' pre')
        with dec have "s = pre' @ d @ post" by simp
        with sh that show False unfolding has_piece_def by blast
      qed
    qed
    have some: "\<exists>pre post. first_piece (c # s) pre d post \<and> ds = findall_dict post"
      if "findall_dict s = d # ds" for d ds
    proof -
      from Cons.IH that obtain pre post where fp: "first_piece s pre d post"
        and ds: "ds = findall_dict post"
        by blast
      have "first_piece (c # s) (c # pre) d post"
        unfolding first_piece_def
      proof (intro conjI allI impI)
        show "c # s = (c # pre) @ d @ post"
          using fp by (simp add: first_piece_def)
        show "lookup_shaped d"
          using fp by (simp add: first_piece_def)
        fix pre' d' post'
        assume dec: "c # s = pre' @ d' @ post' \<and> lookup_shaped d'"
        show "length (c # pre) < length pre'
                \<or> (length (c # pre) = length pre' \<and> length d \<le> length d')"
        proof (cases pre')
          case Nil
          with dec no_prefix show ?thesis by auto
        next
          case (Cons c' pre'')
          with dec have "s = pre'' @ d' @ post'" and "lookup_shaped d'"
            by simp_all
          with fp have "length pre < length pre''
                          \<or> (length pre = length pre'' \<and> length d \<le> length d')"
            unfolding first_piece_def by blast
          with Cons show ?thesis by simp
        qed
      qed
      with ds show ?thesis by blast
    qed
    from skip none some Cons.IH show ?thesis by auto
  qed
qed
lemma evaluate_step_frame:
  "evaluate_step ev dicts d (string, previous)
     = (case ev \<lparr>local_string = string, local_dicts = dicts, local_d = d,
                  local_value = previous\<rparr> of
          Inl e \<Rightarrow> Inl e
        | Inr (Str v) \<Rightarrow> Inr (replace d v string, Some (Str v))
        | Inr _ \<Rightarrow> Inl TypeError)"
  by (simp add: evaluate_step_def bind_def split: sum.splits pyval.splits)

lemma evaluate_loop_raises:
  assumes strings: "\<forall>frame. local_d frame \<in> set ds1 \<longrightarrow> (\<exists>v. ev frame = Inr (Str v))"
    and raises: "\<forall>frame. local_d frame = dk \<longrightarrow> ev frame = Inl e"
  shows "for_loop (ds1 @ dk # ds2) (evaluate_step ev dicts) state = Inl e"
  using strings
proof (induction ds1 arbitrary: state)
  case Nil
  obtain string previous where state: "state = (string, previous)"
    by (cases state)
  from raises have "ev \<lparr>local_string = string, local_dicts = dicts, local_d = dk,
                         local_value = previous\<rparr> = Inl e"
    by simp
  then show ?case
    by (simp add: state evaluate_step_frame)
next
  case (Cons x ds1)
  obtain string previous where state: "state = (string, previous)"
    by (cases state)
  from Cons.prems obtain v where
    "ev \<lparr>local_string = string, local_dicts = dicts, local_d = x, local_value = previous\<rparr>
       = Inr (Str v)"
    by fastforce
  then have "for_loop ((x # ds1) @ dk # ds2) (evaluate_step ev dicts) state
               = for_loop (ds1 @ dk # ds2) (evaluate_step ev dicts)
                   (replace x v string, Some (Str v))"
    by (simp add: state evaluate_step_frame)
  moreover from Cons.prems
  have "\<forall>frame. local_d frame \<in> set ds1 \<longrightarrow> (\<exists>v. ev frame = Inr (Str v))"
    by simp
  ultimately show ?case
    using Cons.IH by simp
qed

text \<open>The expression \<^verbatim>\<open>{"a": "b"}["a"]\<close>.\<close>

definition dict_text :: string where
  "dict_text = ''{'' @ [CHR 0x22] @ ''a'' @ [CHR 0x22] @ '': '' @ [CHR 0x22] @ ''b''
                @ [CHR 0x22] @ ''}['' @ [CHR 0x22] @ ''a'' @ [CHR 0x22] @ '']''"

text \<open>
  Python's \<^verbatim>\<open>eval\<close> inside \<^verbatim>\<open>_evaluate_dict\<close> on the expressions of the examples. The value
  of \<^verbatim>\<open>{"a": "b"}["a"]\<close> is the string \<^verbatim>\<open>b\<close>. \<^verbatim>\<open>{1:string}[1]\<close> is a dict display whose one
  value is the local variable \<^verbatim>\<open>string\<close>, indexed by its key: its value is the text that
  the loop is working on at that moment. The value of \<^verbatim>\<open>{1:2}[1]\<close> is the number 2, and
  \<^verbatim>\<open>{}[0]\<close> raises KeyError. Every other expression is outside this model and stands as
  an exception; nothing is stated about it.
\<close>

definition eval_examples :: evaluator where
  "eval_examples frame =
     (if local_d frame = dict_text then Inr (Str ''b'')
      else if local_d frame = ''{1:string}[1]'' then Inr (Str (local_string frame))
      else if local_d frame = ''{1:2}[1]'' then Inr (PInt 2)
      else Inl EvalError)"

text \<open>
  C6 (as amended). The inline lookup hands to Python's \<^verbatim>\<open>eval\<close> every leftmost,
  non-overlapping piece of the text that has the shape \<^verbatim>\<open>{...}[...]\<close> on one line,
  whatever stands inside the braces and the brackets. The pieces are found once, before
  anything is evaluated: the first is the leftmost piece of that shape, the shortest at
  its place, and the others are the pieces of the text behind it; text without such a
  piece is returned as it is and nothing is evaluated. Each piece is evaluated with the
  local variables of \<^verbatim>\<open>_evaluate_dict\<close> in scope, among them the text as the replacements
  made so far have left it, and is then replaced, wherever it occurs in that text, by the
  value when the value is a string. A value that is not a string raises TypeError and an
  exception of \<^verbatim>\<open>eval\<close> propagates, whichever piece it comes from. This is stated for
  expressions that have no effect but their value or exception.
\<close>

theorem inline_lookup:
  "(findall_dict s = []) = (\<not> has_piece s)
   \<and> (findall_dict s = d # ds
        \<longrightarrow> (\<exists>pre post. first_piece s pre d post \<and> ds = findall_dict post))
   \<and> (findall_dict s = [] \<longrightarrow> evaluate_dict ev s = Inr s)
   \<and> (findall_dict s = [d]
        \<longrightarrow> evaluate_dict ev s
              = (case ev \<lparr>local_string = s, local_dicts = [d], local_d = d,
                           local_value = None\<rparr> of
                   Inl e \<Rightarrow> Inl e
                 | Inr (Str v) \<Rightarrow> Inr (replace d v s)
                 | Inr _ \<Rightarrow> Inl TypeError))
   \<and> (findall_dict s = [first_d, second_d]
        \<and> ev \<lparr>local_string = s, local_dicts = [first_d, second_d], local_d = first_d,
                local_value = None\<rparr>
            = Inr (Str first_v)
        \<longrightarrow> evaluate_dict ev s
              = (case ev \<lparr>local_string = replace first_d first_v s,
                           local_dicts = [first_d, second_d], local_d = second_d,
                           local_value = Some (Str first_v)\<rparr> of
                   Inl e \<Rightarrow> Inl e
                 | Inr (Str second_v) \<Rightarrow> Inr (replace second_d second_v (replace first_d first_v s))
                 | Inr _ \<Rightarrow> Inl TypeError))
   \<and> (findall_dict s = before @ dk # behind
        \<and> (\<forall>frame. local_d frame \<in> set before \<longrightarrow> (\<exists>v. ev frame = Inr (Str v)))
        \<and> (\<forall>frame. local_d frame = dk \<longrightarrow> ev frame = Inl e)
        \<longrightarrow> evaluate_dict ev s = Inl e)"
proof -
  note pieces = findall_dict_pieces [of s]
  have none: "(findall_dict s = []) = (\<not> has_piece s)"
  proof
    assume "findall_dict s = []"
    with pieces show "\<not> has_piece s" by blast
  next
    assume nothing_shaped: "\<not> has_piece s"
    show "findall_dict s = []"
    proof (cases "findall_dict s")
      case Nil
      then show ?thesis .
    next
      case (Cons d' ds')
      with pieces obtain pre post where "first_piece s pre d' post" by blast
      then have "has_piece s"
        unfolding first_piece_def has_piece_def by blast
      with nothing_shaped show ?thesis by simp
    qed
  qed
  have leftmost: "\<exists>pre post. first_piece s pre d post \<and> ds = findall_dict post"
    if "findall_dict s = d # ds"
    using pieces that by blast
  have unchanged: "evaluate_dict ev s = Inr s" if "findall_dict s = []"
    using that by (rule evaluate_dict_no_match)
  have one: "evaluate_dict ev s
               = (case ev \<lparr>local_string = s, local_dicts = [d], local_d = d,
                            local_value = None\<rparr> of
                    Inl e \<Rightarrow> Inl e
                  | Inr (Str v) \<Rightarrow> Inr (replace d v s)
                  | Inr _ \<Rightarrow> Inl TypeError)"
    if "findall_dict s = [d]"
    using that
    by (simp add: evaluate_dict_def evaluate_step_frame bind_def split: sum.splits pyval.splits)
  have two: "evaluate_dict ev s
               = (case ev \<lparr>local_string = replace first_d first_v s,
                           local_dicts = [first_d, second_d], local_d = second_d,
                            local_value = Some (Str first_v)\<rparr> of
                    Inl e \<Rightarrow> Inl e
                  | Inr (Str second_v) \<Rightarrow> Inr (replace second_d second_v (replace first_d first_v s))
                  | Inr _ \<Rightarrow> Inl TypeError)"
    if "findall_dict s = [first_d, second_d]
        \<and> ev \<lparr>local_string = s, local_dicts = [first_d, second_d], local_d = first_d,
                local_value = None\<rparr>
            = Inr (Str first_v)"
    using that
    by (simp add: evaluate_dict_def evaluate_step_frame bind_def split: sum.splits pyval.splits)
  have raised: "evaluate_dict ev s = Inl e"
    if "findall_dict s = before @ dk # behind
        \<and> (\<forall>frame. local_d frame \<in> set before \<longrightarrow> (\<exists>v. ev frame = Inr (Str v)))
        \<and> (\<forall>frame. local_d frame = dk \<longrightarrow> ev frame = Inl e)"
  proof -
    from that have "for_loop (findall_dict s) (evaluate_step ev (findall_dict s)) (s, None) = Inl e"
      using evaluate_loop_raises [of before ev dk e behind "findall_dict s" "(s, None)"] by simp
    then show ?thesis
      by (simp add: evaluate_dict_def bind_def)
  qed
  from none leftmost unchanged one two raised show ?thesis
    by blast
qed

theorem inline_lookup_witness:
  "findall_dict ''no braces'' = []
   \<and> \<not> has_piece ''no braces''
   \<and> evaluate_dict eval_examples ''no braces'' = Inr ''no braces''
   \<and> findall_dict (''prefix_'' @ dict_text @ ''_suffix'') = [dict_text]
   \<and> lookup_shaped dict_text
   \<and> evaluate_dict eval_examples (''prefix_'' @ dict_text @ ''_suffix'') = Inr ''prefix_b_suffix''
   \<and> findall_dict ''{1:string}[1]{1:string}[1]'' = [''{1:string}[1]'', ''{1:string}[1]'']
   \<and> evaluate_dict eval_examples ''{1:string}[1]{1:string}[1]''
       = Inr (concat (replicate 16 ''{1:string}[1]''))
   \<and> findall_dict (dict_text @ ''{}[0]'') = [dict_text, ''{}[0]'']
   \<and> evaluate_dict eval_examples (dict_text @ ''{}[0]'') = Inl EvalError"
proof -
  let ?one = "''prefix_'' @ dict_text @ ''_suffix''"
  let ?A = "''{1:string}[1]''"
  let ?two = "''{1:string}[1]{1:string}[1]''"
  have none: "findall_dict ''no braces'' = []"
    by (simp add: findall_dict_def)
  have one: "findall_dict ?one = [dict_text]"
    by (simp add: findall_dict_def dict_text_def)
  have two: "findall_dict ?two = [?A, ?A]"
    by (simp add: findall_dict_def)
  have three: "findall_dict (dict_text @ ''{}[0]'') = [dict_text] @ ''{}[0]'' # []"
    by (simp add: findall_dict_def dict_text_def)
  from inline_lookup [where s = "''no braces''" and ev = eval_examples] none
  have unchanged: "\<not> has_piece ''no braces''"
    "evaluate_dict eval_examples ''no braces'' = Inr ''no braces''"
    by simp_all
  from inline_lookup [where s = ?one and d = dict_text and ds = "[]"] one
  have shaped: "lookup_shaped dict_text"
    unfolding first_piece_def by blast
  have "replace dict_text ''b'' ?one = ''prefix_b_suffix''"
    by (simp add: replace_def dict_text_def)
  with inline_lookup [where s = ?one and d = dict_text and ev = eval_examples] one
  have replaced: "evaluate_dict eval_examples ?one = Inr ''prefix_b_suffix''"
    by (simp add: eval_examples_def)
  have first_value: "eval_examples \<lparr>local_string = ?two, local_dicts = [?A, ?A], local_d = ?A,
                                     local_value = None\<rparr> = Inr (Str ?two)"
    by (simp add: eval_examples_def dict_text_def)
  have "replace ?A (replace ?A ?two ?two) (replace ?A ?two ?two)
          = concat (replicate 16 ?A)"
    by (simp add: replace_def eval_nat_numeral)
  with inline_lookup [where s = ?two and first_d = ?A and second_d = ?A and first_v = ?two
      and ev = eval_examples] two first_value
  have copies: "evaluate_dict eval_examples ?two = Inr (concat (replicate 16 ?A))"
    by (simp add: eval_examples_def dict_text_def)
  from inline_lookup [where s = "dict_text @ ''{}[0]''" and before = "[dict_text]"
      and dk = "''{}[0]''" and behind = "[]" and ev = eval_examples and e = EvalError] three
  have raised: "evaluate_dict eval_examples (dict_text @ ''{}[0]'') = Inl EvalError"
    by (simp add: eval_examples_def dict_text_def)
  from none unchanged one shaped replaced two copies three raised show ?thesis
    by simp
qed

text \<open>
  The claim as it is written fails. The piece \<^verbatim>\<open>{1:string}[1]\<close> is no literal mapping: its
  value is a variable of the program. It is evaluated all the same, and what is spliced
  in is the text being processed. And the value of the literal lookup \<^verbatim>\<open>{1:2}[1]\<close> is not
  replaced by its textual form \<^verbatim>\<open>2\<close>: a value that is not a string raises TypeError.
\<close>

theorem general_evaluation_counterexample:
  "findall_dict ''x{1:string}[1]'' = [''{1:string}[1]'']
   \<and> evaluate_dict eval_examples ''x{1:string}[1]'' = Inr ''xx{1:string}[1]''
   \<and> findall_dict ''{1:2}[1]'' = [''{1:2}[1]'']
   \<and> evaluate_dict eval_examples ''{1:2}[1]'' = Inl TypeError"
  by (simp add: findall_dict_def evaluate_dict_def evaluate_step_frame eval_examples_def
      dict_text_def bind_def replace_def)

end
